theory Spec2Isabelle
  imports Main
begin

section \<open>Requests, responses and the environment\<close>

text \<open>
  The repository is a small REST service written in Go. It comes in three flavours:
  the durable one (handlers.go, first file, routed by the \<open>main\<close> of part_001 over the
  PostgreSQL table of part_000), the in-memory one with authentication (handlers.go,
  second file) and the in-memory one without authentication (main.go).

  A handler is modelled as a function from the environment of one call, the request and
  the process state to the response written and the new state. An instant of
  \<open>time.Time\<close> is an integer number of nanoseconds.
\<close>

type_synonym instant = int

definition After :: "instant \<Rightarrow> instant \<Rightarrow> bool" where
  "After t u = (u < t)"

definition Hour :: int where
  "Hour = 3600 * 1000000000"

datatype verb = GET | POST | PUT | DELETE | OPTIONS

text \<open>
  The request as the handlers read it: the method, the path split at its slashes,
  \<open>r.Header.Get("Authorization")\<close> (empty when the header is absent) and the body.

  The body is what \<open>json.NewDecoder(r.Body).Decode\<close> sees: \<open>None\<close> is a body on which it
  returns an error (text that is not JSON, or a value other than a string or \<open>null\<close>
  for a field of the target struct); otherwise the members of the object whose value
  is a string, in the order of the document, each with its name unquoted (a \<open>null\<close>
  leaves its field as it is, like no member at all). \<open>Decode\<close> stores a member
  in the field of the target struct whose tag equals the member's name up to case
  folding, so \<open>NAME\<close> and \<open>Name\<close> fill the field tagged \<open>name\<close>. \<open>foldName\<close> is the
  folding of encoding/json on the UTF-8 bytes of a name: ASCII letters to upper case,
  the Kelvin sign (bytes E2 84 AA) to \<open>K\<close>, the long s (bytes C5 BF) to \<open>S\<close>; no other
  character folds to an ASCII one. Members are stored one after the other, so of two
  members for one field the later one stays; a field that no member fills keeps its
  zero value, the empty string. \<open>field ms tag\<close> is the value the field tagged \<open>tag\<close>
  has after decoding the members \<open>ms\<close>.
\<close>

record request =
  verb :: verb
  path :: "string list"
  Authorization :: string
  body :: "(string \<times> string) list option"

definition upper :: "char \<Rightarrow> char" where
  "upper c =
     (case map_of
             [(CHR ''a'', CHR ''A''), (CHR ''b'', CHR ''B''), (CHR ''c'', CHR ''C''),
              (CHR ''d'', CHR ''D''), (CHR ''e'', CHR ''E''), (CHR ''f'', CHR ''F''),
              (CHR ''g'', CHR ''G''), (CHR ''h'', CHR ''H''), (CHR ''i'', CHR ''I''),
              (CHR ''j'', CHR ''J''), (CHR ''k'', CHR ''K''), (CHR ''l'', CHR ''L''),
              (CHR ''m'', CHR ''M''), (CHR ''n'', CHR ''N''), (CHR ''o'', CHR ''O''),
              (CHR ''p'', CHR ''P''), (CHR ''q'', CHR ''Q''), (CHR ''r'', CHR ''R''),
              (CHR ''s'', CHR ''S''), (CHR ''t'', CHR ''T''), (CHR ''u'', CHR ''U''),
              (CHR ''v'', CHR ''V''), (CHR ''w'', CHR ''W''), (CHR ''x'', CHR ''X''),
              (CHR ''y'', CHR ''Y''), (CHR ''z'', CHR ''Z'')] c of
        None \<Rightarrow> c
      | Some u \<Rightarrow> u)"

fun foldName :: "string \<Rightarrow> string" where
  "foldName [] = []"
| "foldName (c # cs) =
     (if c = CHR 0xE2 \<and> take 2 cs = [CHR 0x84, CHR 0xAA] then CHR ''K'' # foldName (drop 2 cs)
      else if c = CHR 0xC5 \<and> take 1 cs = [CHR 0xBF] then CHR ''S'' # foldName (drop 1 cs)
      else upper c # foldName cs)"

fun assign :: "string \<Rightarrow> (string \<times> string) list \<Rightarrow> string \<Rightarrow> string" where
  "assign tag [] v = v"
| "assign tag ((k, x) # ms) v = assign tag ms (if foldName k = foldName tag then x else v)"

definition field :: "(string \<times> string) list \<Rightarrow> string \<Rightarrow> string" where
  "field ms tag = assign tag ms []"

text \<open>
  What one call reads from outside the process: the clock, the UUID generator and the
  outcome of the database driver's calls. \<open>query_err\<close> says that the statement the
  handler sends fails with an error other than \<open>sql.ErrNoRows\<close> (connection or query
  failure, a value the server refuses for the column's type); \<open>scan_err\<close>, \<open>rows_err\<close>
  and \<open>affected_err\<close> say that \<open>rows.Scan\<close>, \<open>rows.Err()\<close> and
  \<open>result.RowsAffected()\<close> return an error.
\<close>

record env =
  Now :: instant
  uuid_New :: string
  query_err :: bool
  scan_err :: bool
  rows_err :: bool
  affected_err :: bool

datatype 'h payload =
    ErrorResponse string
  | SuccessResponse string
  | LoginResponse string
  | HeroJSON 'h
  | HeroesJSON "'h list"
  | NoBody

datatype 'h response = Response (status: nat) (payload: "'h payload")

abbreviation StatusOK :: nat where "StatusOK \<equiv> 200"
abbreviation StatusCreated :: nat where "StatusCreated \<equiv> 201"
abbreviation StatusNoContent :: nat where "StatusNoContent \<equiv> 204"
abbreviation StatusBadRequest :: nat where "StatusBadRequest \<equiv> 400"
abbreviation StatusUnauthorized :: nat where "StatusUnauthorized \<equiv> 401"
abbreviation StatusNotFound :: nat where "StatusNotFound \<equiv> 404"
abbreviation StatusInternalServerError :: nat where "StatusInternalServerError \<equiv> 500"

text \<open>
  \<open>respondWithJSON\<close> marshals the payload and writes it with the status code; the
  payloads of this service always marshal. \<open>respondWithError\<close> wraps the message in
  the error object (\<open>ErrorResponse{Error: message}\<close> in the durable variant,
  \<open>map[string]string{"error": message}\<close> in the in-memory ones: the same JSON).
\<close>

definition respondWithJSON :: "nat \<Rightarrow> 'h payload \<Rightarrow> 'h response" where
  "respondWithJSON code p = Response code p"

definition respondWithError :: "nat \<Rightarrow> string \<Rightarrow> 'h response" where
  "respondWithError code message = respondWithJSON code (ErrorResponse message)"

definition HasPrefix :: "string \<Rightarrow> string \<Rightarrow> bool" where
  "HasPrefix s p = (take (length p) s = p)"

definition TrimPrefix :: "string \<Rightarrow> string \<Rightarrow> string" where
  "TrimPrefix s p = (if HasPrefix s p then drop (length p) s else s)"

section \<open>Credentials and the session registry\<close>

record User =
  Username :: string
  Password :: string

record LoginRequest =
  login_Username :: string
  login_Password :: string

text \<open>
  The package-level variables: \<open>validTokens\<close> (token to expiry), \<open>config.Users\<close> and the
  hero store, which is the database in the durable variant and the slice with its
  counter in the in-memory ones.
\<close>

record 'store server =
  validTokens :: "string \<rightharpoonup> instant"
  config_Users :: "User list"
  store :: 'store

type_synonym ('store, 'h) handler =
  "env \<Rightarrow> request \<Rightarrow> 'store server \<Rightarrow> 'h response \<times> 'store server"

text \<open>
  The registry check of the gate (handlers.go 64-66): the comma-ok lookup
  \<open>_, exists := validTokens[token]\<close>. The stored expiry is discarded.
\<close>

definition validate :: "(string \<rightharpoonup> instant) \<Rightarrow> string \<Rightarrow> bool" where
  "validate vt token = (case vt token of None \<Rightarrow> False | Some _ \<Rightarrow> True)"

definition authMiddleware :: "('store, 'h) handler \<Rightarrow> ('store, 'h) handler" where
  "authMiddleware next e r s =
     (let authHeader = Authorization r in
      if authHeader = [] then
        (respondWithError StatusUnauthorized ''Authorization header required'', s)
      else if \<not> HasPrefix authHeader ''Bearer '' then
        (respondWithError StatusUnauthorized ''Invalid authorization format'', s)
      else
        let token = TrimPrefix authHeader ''Bearer '' in
        if token = [] then
          (respondWithError StatusUnauthorized ''Token required'', s)
        else if \<not> validate (validTokens s) token then
          (respondWithError StatusUnauthorized ''Invalid or expired token'', s)
        else next e r s)"

text \<open>The credential loop of \<open>login\<close>: the first entry equal in both fields ends it.\<close>

fun userFound :: "User list \<Rightarrow> string \<Rightarrow> string \<Rightarrow> bool" where
  "userFound [] u p = False"
| "userFound (user # users) u p =
     (if Username user = u \<and> Password user = p then True else userFound users u p)"

definition decodeLoginRequest :: "(string \<times> string) list option \<Rightarrow> LoginRequest option" where
  "decodeLoginRequest b =
     (case b of
        None \<Rightarrow> None
      | Some m \<Rightarrow>
          Some \<lparr>login_Username = field m ''username'', login_Password = field m ''password''\<rparr>)"

definition login :: "('store, 'h) handler" where
  "login e r s =
     (case decodeLoginRequest (body r) of
        None \<Rightarrow> (respondWithError StatusBadRequest ''Invalid request payload'', s)
      | Some loginReq \<Rightarrow>
          if \<not> userFound (config_Users s) (login_Username loginReq) (login_Password loginReq)
          then (respondWithError StatusUnauthorized ''Invalid username or password'', s)
          else
            let token = uuid_New e in
            (respondWithJSON StatusOK (LoginResponse token),
             s\<lparr>validTokens := (validTokens s)(token \<mapsto> Now e + 24 * Hour)\<rparr>))"

definition logout :: "('store, 'h) handler" where
  "logout e r s =
     (let authHeader = Authorization r in
      if authHeader = [] then
        (respondWithError StatusUnauthorized ''Authorization header required'', s)
      else
        let token = TrimPrefix authHeader ''Bearer '' in
        if token = [] then
          (respondWithError StatusUnauthorized ''Token required'', s)
        else
          (respondWithJSON StatusOK (SuccessResponse ''Logged out successfully''),
           s\<lparr>validTokens := (validTokens s)(token := None)\<rparr>))"

text \<open>
  One pass of the background loop \<open>cleanExpiredTokens\<close> after its sleep: with the lock
  held it reads the clock once and ranges over the map, deleting the entry in hand when
  the clock is after its expiry. \<open>keys\<close> is the order in which the range produces the
  entries, which Go leaves unspecified; an entry already deleted is not produced.
\<close>

definition sweep_entry :: "instant \<Rightarrow> string \<Rightarrow> (string \<rightharpoonup> instant) \<Rightarrow> (string \<rightharpoonup> instant)" where
  "sweep_entry now token vt =
     (case vt token of
        None \<Rightarrow> vt
      | Some expiry \<Rightarrow> if After now expiry then vt(token := None) else vt)"

definition cleanExpiredTokens :: "env \<Rightarrow> string list \<Rightarrow> 'store server \<Rightarrow> 'store server" where
  "cleanExpiredTokens e keys s =
     s\<lparr>validTokens := fold (sweep_entry (Now e)) keys (validTokens s)\<rparr>"

section \<open>Decimal identifiers\<close>

text \<open>
  \<open>strconv.Atoi\<close> and \<open>strconv.Itoa\<close> of the Go library, for the 64-bit \<open>int\<close>.
  \<open>Atoi\<close> takes an optional sign and then at least one decimal digit, nothing else, and
  fails when the value does not fit; \<open>None\<close> is its error.
\<close>

definition digit_of :: "char \<Rightarrow> nat option" where
  "digit_of c =
     map_of [(CHR ''0'', 0), (CHR ''1'', 1), (CHR ''2'', 2), (CHR ''3'', 3), (CHR ''4'', 4),
             (CHR ''5'', 5), (CHR ''6'', 6), (CHR ''7'', 7), (CHR ''8'', 8), (CHR ''9'', 9)] c"

fun parse_digits :: "string \<Rightarrow> nat \<Rightarrow> nat option" where
  "parse_digits [] n = Some n"
| "parse_digits (c # cs) n =
     (case digit_of c of None \<Rightarrow> None | Some k \<Rightarrow> parse_digits cs (n * 10 + k))"

definition Atoi :: "string \<Rightarrow> int option" where
  "Atoi s =
     (case s of
        [] \<Rightarrow> None
      | c # cs \<Rightarrow>
          let ds = (if c = CHR ''-'' \<or> c = CHR ''+'' then cs else s) in
          if ds = [] then None
          else
            (case parse_digits ds 0 of
               None \<Rightarrow> None
             | Some n \<Rightarrow>
                 let v = (if c = CHR ''-'' then - int n else int n) in
                 if - (2 ^ 63) \<le> v \<and> v < 2 ^ 63 then Some v else None))"

definition digit_char :: "nat \<Rightarrow> char" where
  "digit_char n = ''0123456789'' ! n"

function FormatUint :: "nat \<Rightarrow> string" where
  "FormatUint n =
     (if n < 10 then [digit_char n] else FormatUint (n div 10) @ [digit_char (n mod 10)])"
  by pat_completeness auto
termination
  by (relation "measure (\<lambda>n. n)") auto

declare FormatUint.simps [simp del]

definition Itoa :: "int \<Rightarrow> string" where
  "Itoa n = (if n < 0 then CHR ''-'' # FormatUint (nat (- n)) else FormatUint (nat n))"

text \<open>
  The numeric strings: an optional sign and then one or more decimal digits.
\<close>

definition all_digits :: "string \<Rightarrow> bool" where
  "all_digits s = (s \<noteq> [] \<and> list_all (\<lambda>c. digit_of c \<noteq> None) s)"

definition numeric_string :: "string \<Rightarrow> bool" where
  "numeric_string s =
     (case s of
        [] \<Rightarrow> False
      | c # cs \<Rightarrow> if c = CHR ''-'' \<or> c = CHR ''+'' then all_digits cs else all_digits s)"

text \<open>\<open>mux.Vars(r)["id"]\<close> on the routes \<open>/api/heroes/{id}\<close>: the third segment.\<close>

definition Vars_id :: "request \<Rightarrow> string" where
  "Vars_id r = (case path r of [a, b, x] \<Rightarrow> x | _ \<Rightarrow> [])"

section \<open>The durable hero store\<close>

record Hero =
  ID :: int
  Name :: string
  Role :: string
  Difficulty :: string
  CreatedAt :: instant
  UpdatedAt :: instant

record HeroCreateRequest =
  create_Name :: string
  create_Role :: string
  create_Difficulty :: string

record HeroUpdateRequest =
  update_Name :: string
  update_Role :: string
  update_Difficulty :: string

text \<open>
  The table \<open>heroes\<close> of \<open>CreateTables\<close> with the sequence behind its \<open>SERIAL\<close> column:
  \<open>heroes_id_seq\<close> is the last value the sequence gave out. The five statements the
  handlers send are functions on this state. A statement that fails for a reason
  outside the table (\<open>query_err\<close>) leaves it as it is.
\<close>

record database =
  heroes :: "Hero list"
  heroes_id_seq :: int

datatype sql_error = ErrNoRows | ErrOther

text \<open>\<open>SELECT ... FROM heroes ORDER BY id\<close>\<close>

definition select_heroes :: "env \<Rightarrow> database \<Rightarrow> sql_error + Hero list" where
  "select_heroes e d = (if query_err e then Inl ErrOther else Inr (sort_key ID (heroes d)))"

text \<open>\<open>SELECT ... FROM heroes WHERE id = $1\<close>, scanned as one row\<close>

definition select_hero :: "env \<Rightarrow> int \<Rightarrow> database \<Rightarrow> sql_error + Hero" where
  "select_hero e hid d =
     (if query_err e then Inl ErrOther
      else (case find (\<lambda>h. ID h = hid) (heroes d) of
              None \<Rightarrow> Inl ErrNoRows
            | Some h \<Rightarrow> Inr h))"

text \<open>
  \<open>INSERT INTO heroes (name, role, difficulty) VALUES ($1, $2, $3) RETURNING ...\<close>:
  the id is the next value of the sequence, both timestamps default to the current
  time, and the primary key refuses an id the table already holds (the sequence has
  moved on all the same).
\<close>

definition insert_hero ::
  "env \<Rightarrow> string \<Rightarrow> string \<Rightarrow> string \<Rightarrow> database \<Rightarrow> (sql_error + Hero) \<times> database" where
  "insert_hero e name role difficulty d =
     (if query_err e then (Inl ErrOther, d)
      else
        let hid = heroes_id_seq d + 1;
            d' = d\<lparr>heroes_id_seq := hid\<rparr>;
            hero = \<lparr>ID = hid, Name = name, Role = role, Difficulty = difficulty,
                    CreatedAt = Now e, UpdatedAt = Now e\<rparr>
        in if hid \<in> ID ` set (heroes d) then (Inl ErrOther, d')
           else (Inr hero, d'\<lparr>heroes := heroes d @ [hero]\<rparr>))"

text \<open>
  \<open>UPDATE heroes SET name = $1, role = $2, difficulty = $3 WHERE id = $4 RETURNING ...\<close>;
  the trigger \<open>update_heroes_updated_at\<close> stamps every row the statement updates.
\<close>

definition update_hero ::
  "env \<Rightarrow> string \<Rightarrow> string \<Rightarrow> string \<Rightarrow> int \<Rightarrow> database \<Rightarrow> (sql_error + Hero) \<times> database" where
  "update_hero e name role difficulty hid d =
     (if query_err e then (Inl ErrOther, d)
      else
        let set_row = (\<lambda>h. if ID h = hid
                            then h\<lparr>Name := name, Role := role, Difficulty := difficulty,
                                   UpdatedAt := Now e\<rparr>
                            else h);
            d' = d\<lparr>heroes := map set_row (heroes d)\<rparr>
        in (case find (\<lambda>h. ID h = hid) (heroes d') of
              None \<Rightarrow> (Inl ErrNoRows, d')
            | Some h \<Rightarrow> (Inr h, d')))"

text \<open>\<open>DELETE FROM heroes WHERE id = $1\<close>, with the number of rows it removed\<close>

definition delete_hero :: "env \<Rightarrow> int \<Rightarrow> database \<Rightarrow> (sql_error + nat) \<times> database" where
  "delete_hero e hid d =
     (if query_err e then (Inl ErrOther, d)
      else (Inr (length (filter (\<lambda>h. ID h = hid) (heroes d))),
            d\<lparr>heroes := filter (\<lambda>h. ID h \<noteq> hid) (heroes d)\<rparr>))"

definition decodeHeroCreateRequest ::
  "(string \<times> string) list option \<Rightarrow> HeroCreateRequest option" where
  "decodeHeroCreateRequest b =
     (case b of
        None \<Rightarrow> None
      | Some m \<Rightarrow>
          Some \<lparr>create_Name = field m ''name'', create_Role = field m ''role'',
                create_Difficulty = field m ''difficulty''\<rparr>)"

definition decodeHeroUpdateRequest ::
  "(string \<times> string) list option \<Rightarrow> HeroUpdateRequest option" where
  "decodeHeroUpdateRequest b =
     (case b of
        None \<Rightarrow> None
      | Some m \<Rightarrow>
          Some \<lparr>update_Name = field m ''name'', update_Role = field m ''role'',
                update_Difficulty = field m ''difficulty''\<rparr>)"

definition getHeroes :: "env \<Rightarrow> request \<Rightarrow> database \<Rightarrow> Hero response \<times> database" where
  "getHeroes e r d =
     (case select_heroes e d of
        Inl err \<Rightarrow> (respondWithError StatusInternalServerError ''Failed to fetch heroes'', d)
      | Inr rows \<Rightarrow>
          if rows \<noteq> [] \<and> scan_err e then
            (respondWithError StatusInternalServerError ''Failed to scan hero data'', d)
          else if rows_err e then
            (respondWithError StatusInternalServerError ''Error iterating heroes'', d)
          else (respondWithJSON StatusOK (HeroesJSON rows), d))"

definition getHeroByID :: "env \<Rightarrow> request \<Rightarrow> database \<Rightarrow> Hero response \<times> database" where
  "getHeroByID e r d =
     (case Atoi (Vars_id r) of
        None \<Rightarrow> (respondWithError StatusBadRequest ''Invalid hero ID'', d)
      | Some hid \<Rightarrow>
          (case select_hero e hid d of
             Inl ErrNoRows \<Rightarrow> (respondWithError StatusNotFound ''Hero not found'', d)
           | Inl ErrOther \<Rightarrow>
               (respondWithError StatusInternalServerError ''Failed to fetch hero'', d)
           | Inr hero \<Rightarrow> (respondWithJSON StatusOK (HeroJSON hero), d)))"

definition createHero :: "env \<Rightarrow> request \<Rightarrow> database \<Rightarrow> Hero response \<times> database" where
  "createHero e r d =
     (case decodeHeroCreateRequest (body r) of
        None \<Rightarrow> (respondWithError StatusBadRequest ''Invalid request payload'', d)
      | Some req \<Rightarrow>
          if create_Name req = [] \<or> create_Role req = [] \<or> create_Difficulty req = [] then
            (respondWithError StatusBadRequest ''Name, role, and difficulty are required'', d)
          else
            (case insert_hero e (create_Name req) (create_Role req) (create_Difficulty req) d of
               (Inl err, d') \<Rightarrow>
                 (respondWithError StatusInternalServerError ''Failed to create hero'', d')
             | (Inr hero, d') \<Rightarrow> (respondWithJSON StatusCreated (HeroJSON hero), d')))"

definition updateHero :: "env \<Rightarrow> request \<Rightarrow> database \<Rightarrow> Hero response \<times> database" where
  "updateHero e r d =
     (case Atoi (Vars_id r) of
        None \<Rightarrow> (respondWithError StatusBadRequest ''Invalid hero ID'', d)
      | Some hid \<Rightarrow>
          (case decodeHeroUpdateRequest (body r) of
             None \<Rightarrow> (respondWithError StatusBadRequest ''Invalid request payload'', d)
           | Some req \<Rightarrow>
               if update_Name req = [] \<or> update_Role req = [] \<or> update_Difficulty req = [] then
                 (respondWithError StatusBadRequest ''Name, role, and difficulty are required'', d)
               else
                 (case update_hero e (update_Name req) (update_Role req)
                         (update_Difficulty req) hid d of
                    (Inl ErrNoRows, d') \<Rightarrow>
                      (respondWithError StatusNotFound ''Hero not found'', d')
                  | (Inl ErrOther, d') \<Rightarrow>
                      (respondWithError StatusInternalServerError ''Failed to update hero'', d')
                  | (Inr hero, d') \<Rightarrow> (respondWithJSON StatusOK (HeroJSON hero), d'))))"

definition deleteHero :: "env \<Rightarrow> request \<Rightarrow> database \<Rightarrow> Hero response \<times> database" where
  "deleteHero e r d =
     (case Atoi (Vars_id r) of
        None \<Rightarrow> (respondWithError StatusBadRequest ''Invalid hero ID'', d)
      | Some hid \<Rightarrow>
          (case delete_hero e hid d of
             (Inl err, d') \<Rightarrow>
               (respondWithError StatusInternalServerError ''Failed to delete hero'', d')
           | (Inr rowsAffected, d') \<Rightarrow>
               if affected_err e then
                 (respondWithError StatusInternalServerError
                    ''Failed to check deletion result'', d')
               else if rowsAffected = 0 then
                 (respondWithError StatusNotFound ''Hero not found'', d')
               else (Response StatusNoContent NoBody, d')))"

section \<open>The in-memory hero store\<close>

text \<open>
  The in-memory variants (handlers.go, second file, and main.go) keep the heroes in a
  slice and the next identifier in the counter \<open>nextID\<close>, a 64-bit \<open>int\<close> that wraps
  around when it is incremented at its largest value. Their \<open>Hero\<close> has a string
  identifier and no timestamps; the handlers of the two files are the same text.
\<close>

record Hero_mem =
  ID_mem :: string
  Name_mem :: string
  Role_mem :: string
  Difficulty_mem :: string

record memstore =
  heroes_mem :: "Hero_mem list"
  nextID :: int

definition increment :: "int \<Rightarrow> int" where
  "increment n = (if n = 2 ^ 63 - 1 then - (2 ^ 63) else n + 1)"

definition initHeroes :: memstore where
  "initHeroes =
     \<lparr>heroes_mem =
        [\<lparr>ID_mem = ''1'', Name_mem = ''Alucard'', Role_mem = ''Fighter'', Difficulty_mem = ''Mudah''\<rparr>,
         \<lparr>ID_mem = ''2'', Name_mem = ''Miya'', Role_mem = ''Marksman'', Difficulty_mem = ''Mudah''\<rparr>,
         \<lparr>ID_mem = ''3'', Name_mem = ''Fanny'', Role_mem = ''Assassin'', Difficulty_mem = ''Sulit''\<rparr>],
      nextID = 4\<rparr>"

definition decodeHero_mem :: "(string \<times> string) list option \<Rightarrow> Hero_mem option" where
  "decodeHero_mem b =
     (case b of
        None \<Rightarrow> None
      | Some m \<Rightarrow>
          Some \<lparr>ID_mem = field m ''id'', Name_mem = field m ''name'', Role_mem = field m ''role'',
                Difficulty_mem = field m ''difficulty''\<rparr>)"

text \<open>
  The loop \<open>for i, hero := range heroes\<close> of \<open>updateHero\<close> and \<open>deleteHero\<close> stops at the
  first hero with the identifier; \<open>index_of\<close> is the index it stops at.
\<close>

fun index_of :: "string \<Rightarrow> Hero_mem list \<Rightarrow> nat option" where
  "index_of hid [] = None"
| "index_of hid (hero # rest) =
     (if ID_mem hero = hid then Some 0 else map_option Suc (index_of hid rest))"

definition getHeroes_mem :: "env \<Rightarrow> request \<Rightarrow> memstore \<Rightarrow> Hero_mem response \<times> memstore" where
  "getHeroes_mem e r st = (respondWithJSON StatusOK (HeroesJSON (heroes_mem st)), st)"

definition createHero_mem :: "env \<Rightarrow> request \<Rightarrow> memstore \<Rightarrow> Hero_mem response \<times> memstore" where
  "createHero_mem e r st =
     (case decodeHero_mem (body r) of
        None \<Rightarrow> (respondWithError StatusBadRequest ''Invalid request payload'', st)
      | Some newHero \<Rightarrow>
          if Name_mem newHero = [] \<or> Role_mem newHero = [] \<or> Difficulty_mem newHero = [] then
            (respondWithError StatusBadRequest ''Name, role, and difficulty are required'', st)
          else
            let newHero' = newHero\<lparr>ID_mem := Itoa (nextID st)\<rparr> in
            (respondWithJSON StatusCreated (HeroJSON newHero'),
             st\<lparr>nextID := increment (nextID st),
                heroes_mem := heroes_mem st @ [newHero']\<rparr>))"

definition updateHero_mem :: "env \<Rightarrow> request \<Rightarrow> memstore \<Rightarrow> Hero_mem response \<times> memstore" where
  "updateHero_mem e r st =
     (let hid = Vars_id r in
      case decodeHero_mem (body r) of
        None \<Rightarrow> (respondWithError StatusBadRequest ''Invalid request payload'', st)
      | Some updatedHero \<Rightarrow>
          if Name_mem updatedHero = [] \<or> Role_mem updatedHero = [] \<or>
             Difficulty_mem updatedHero = [] then
            (respondWithError StatusBadRequest ''Name, role, and difficulty are required'', st)
          else
            (case index_of hid (heroes_mem st) of
               Some i \<Rightarrow>
                 let updatedHero' = updatedHero\<lparr>ID_mem := hid\<rparr> in
                 (respondWithJSON StatusOK (HeroJSON updatedHero'),
                  st\<lparr>heroes_mem := (heroes_mem st)[i := updatedHero']\<rparr>)
             | None \<Rightarrow> (respondWithError StatusNotFound ''Hero not found'', st)))"

definition deleteHero_mem :: "env \<Rightarrow> request \<Rightarrow> memstore \<Rightarrow> Hero_mem response \<times> memstore" where
  "deleteHero_mem e r st =
     (let hid = Vars_id r in
      case index_of hid (heroes_mem st) of
        Some i \<Rightarrow>
          (respondWithJSON StatusOK (SuccessResponse ''Hero deleted successfully''),
           st\<lparr>heroes_mem := take i (heroes_mem st) @ drop (i + 1) (heroes_mem st)\<rparr>)
      | None \<Rightarrow> (respondWithError StatusNotFound ''Hero not found'', st))"

section \<open>Routing\<close>

text \<open>
  The three \<open>main\<close> functions register their routes on a gorilla/mux router under the
  prefix \<open>/api\<close>, behind \<open>corsMiddleware\<close>. A route is a path pattern and a method;
  \<open>{id}\<close> stands for one non-empty segment. \<open>None\<close> is a request that no registered
  route takes: the router answers it by itself, and no handler of this repository runs.
\<close>

definition corsMiddleware ::
  "(env \<Rightarrow> request \<Rightarrow> 'st \<Rightarrow> 'h response \<times> 'st) \<Rightarrow> env \<Rightarrow> request \<Rightarrow> 'st \<Rightarrow> 'h response \<times> 'st" where
  "corsMiddleware next e r st =
     (if verb r = OPTIONS then (Response StatusOK NoBody, st) else next e r st)"

definition preflight :: "env \<Rightarrow> request \<Rightarrow> 'st \<Rightarrow> 'h response \<times> 'st" where
  "preflight e r st = (Response StatusOK NoBody, st)"

definition on_store ::
  "(env \<Rightarrow> request \<Rightarrow> 'store \<Rightarrow> 'h response \<times> 'store) \<Rightarrow> ('store, 'h) handler" where
  "on_store h e r s = (case h e r (store s) of (resp, st) \<Rightarrow> (resp, s\<lparr>store := st\<rparr>))"

text \<open>The routes of the durable variant (\<open>main\<close> of part_001).\<close>

definition routes :: "request \<Rightarrow> (database, Hero) handler option" where
  "routes r =
     (case path r of
        [a, b] \<Rightarrow>
          if a = ''api'' \<and> b = ''login'' then
            (case verb r of POST \<Rightarrow> Some login | OPTIONS \<Rightarrow> Some preflight | _ \<Rightarrow> None)
          else if a = ''api'' \<and> b = ''logout'' then
            (case verb r of POST \<Rightarrow> Some logout | OPTIONS \<Rightarrow> Some preflight | _ \<Rightarrow> None)
          else if a = ''api'' \<and> b = ''heroes'' then
            (case verb r of
               GET \<Rightarrow> Some (on_store getHeroes)
             | POST \<Rightarrow> Some (authMiddleware (on_store createHero))
             | OPTIONS \<Rightarrow> Some preflight
             | _ \<Rightarrow> None)
          else None
      | [a, b, x] \<Rightarrow>
          if a = ''api'' \<and> b = ''heroes'' \<and> x \<noteq> [] then
            (case verb r of
               GET \<Rightarrow> Some (on_store getHeroByID)
             | PUT \<Rightarrow> Some (authMiddleware (on_store updateHero))
             | DELETE \<Rightarrow> Some (authMiddleware (on_store deleteHero))
             | OPTIONS \<Rightarrow> Some preflight
             | _ \<Rightarrow> None)
          else None
      | _ \<Rightarrow> None)"

definition ServeHTTP ::
  "env \<Rightarrow> request \<Rightarrow> database server \<Rightarrow> (Hero response \<times> database server) option" where
  "ServeHTTP e r s = map_option (\<lambda>h. corsMiddleware h e r s) (routes r)"

text \<open>The routes of the in-memory variant with authentication (handlers.go, second file).\<close>

definition routes_mem :: "request \<Rightarrow> (memstore, Hero_mem) handler option" where
  "routes_mem r =
     (case path r of
        [a, b] \<Rightarrow>
          if a = ''api'' \<and> b = ''login'' then
            (case verb r of POST \<Rightarrow> Some login | OPTIONS \<Rightarrow> Some preflight | _ \<Rightarrow> None)
          else if a = ''api'' \<and> b = ''logout'' then
            (case verb r of POST \<Rightarrow> Some logout | OPTIONS \<Rightarrow> Some preflight | _ \<Rightarrow> None)
          else if a = ''api'' \<and> b = ''heroes'' then
            (case verb r of
               GET \<Rightarrow> Some (on_store getHeroes_mem)
             | POST \<Rightarrow> Some (authMiddleware (on_store createHero_mem))
             | OPTIONS \<Rightarrow> Some preflight
             | _ \<Rightarrow> None)
          else None
      | [a, b, x] \<Rightarrow>
          if a = ''api'' \<and> b = ''heroes'' \<and> x \<noteq> [] then
            (case verb r of
               PUT \<Rightarrow> Some (authMiddleware (on_store updateHero_mem))
             | DELETE \<Rightarrow> Some (authMiddleware (on_store deleteHero_mem))
             | OPTIONS \<Rightarrow> Some preflight
             | _ \<Rightarrow> None)
          else None
      | _ \<Rightarrow> None)"

definition ServeHTTP_mem ::
  "env \<Rightarrow> request \<Rightarrow> memstore server \<Rightarrow> (Hero_mem response \<times> memstore server) option" where
  "ServeHTTP_mem e r s = map_option (\<lambda>h. corsMiddleware h e r s) (routes_mem r)"

text \<open>The routes of the in-memory variant without authentication (main.go).\<close>

definition routes_open ::
  "request \<Rightarrow> (env \<Rightarrow> request \<Rightarrow> memstore \<Rightarrow> Hero_mem response \<times> memstore) option" where
  "routes_open r =
     (case path r of
        [a, b] \<Rightarrow>
          if a = ''api'' \<and> b = ''heroes'' then
            (case verb r of
               GET \<Rightarrow> Some getHeroes_mem
             | POST \<Rightarrow> Some createHero_mem
             | OPTIONS \<Rightarrow> Some preflight
             | _ \<Rightarrow> None)
          else None
      | [a, b, x] \<Rightarrow>
          if a = ''api'' \<and> b = ''heroes'' \<and> x \<noteq> [] then
            (case verb r of
               PUT \<Rightarrow> Some updateHero_mem
             | DELETE \<Rightarrow> Some deleteHero_mem
             | OPTIONS \<Rightarrow> Some preflight
             | _ \<Rightarrow> None)
          else None
      | _ \<Rightarrow> None)"

definition ServeHTTP_open ::
  "env \<Rightarrow> request \<Rightarrow> memstore \<Rightarrow> (Hero_mem response \<times> memstore) option" where
  "ServeHTTP_open e r st = map_option (\<lambda>h. corsMiddleware h e r st) (routes_open r)"

section \<open>Sequences of calls on the table\<close>

text \<open>
  What the table is after a sequence of calls of the hero handlers, each with its own
  environment and request. A call touches an identifier when it is an update or a
  delete whose path identifier parses to it.
\<close>

datatype call =
    GetHeroes env request
  | GetHeroByID env request
  | CreateHero env request
  | UpdateHero env request
  | DeleteHero env request

fun serve_call :: "call \<Rightarrow> database \<Rightarrow> Hero response \<times> database" where
  "serve_call (GetHeroes e r) d = getHeroes e r d"
| "serve_call (GetHeroByID e r) d = getHeroByID e r d"
| "serve_call (CreateHero e r) d = createHero e r d"
| "serve_call (UpdateHero e r) d = updateHero e r d"
| "serve_call (DeleteHero e r) d = deleteHero e r d"

fun serve_calls :: "call list \<Rightarrow> database \<Rightarrow> database" where
  "serve_calls [] d = d"
| "serve_calls (c # cs) d = serve_calls cs (snd (serve_call c d))"

fun touches :: "int \<Rightarrow> call \<Rightarrow> bool" where
  "touches hid (UpdateHero e r) = (Atoi (Vars_id r) = Some hid)"
| "touches hid (DeleteHero e r) = (Atoi (Vars_id r) = Some hid)"
| "touches hid c = False"

section \<open>Invariants of the stores\<close>

text \<open>
  Two properties that the stores have at start-up and that every handler keeps, proved
  below. In the table, every identifier was given out by the sequence. In the slice,
  every identifier reads as a number below the counter, and the counter is a 64-bit
  value.
\<close>

definition ids_from_sequence :: "database \<Rightarrow> bool" where
  "ids_from_sequence d = list_all (\<lambda>h. ID h \<le> heroes_id_seq d) (heroes d)"

definition ids_below_counter :: "memstore \<Rightarrow> bool" where
  "ids_below_counter st =
     (- (2 ^ 63) \<le> nextID st \<and> nextID st < 2 ^ 63 \<and>
      list_all (\<lambda>h. case Atoi (ID_mem h) of None \<Rightarrow> False | Some k \<Rightarrow> k < nextID st)
        (heroes_mem st))"

section \<open>The bearer-token gate\<close>

lemma TrimPrefix_Bearer: "TrimPrefix (''Bearer '' @ token) ''Bearer '' = token"
  by (simp add: TrimPrefix_def HasPrefix_def)

lemma HasPrefix_Bearer: "HasPrefix (''Bearer '' @ token) ''Bearer ''"
  by (simp add: HasPrefix_def)

lemma validate_dom: "validate vt token \<longleftrightarrow> token \<in> dom vt"
  by (auto simp: validate_def split: option.splits)

lemma authMiddleware_Bearer:
  assumes "token \<noteq> []" and "Authorization r = ''Bearer '' @ token"
  shows "authMiddleware inner e r s =
           (if validate (validTokens s) token then inner e r s
            else (respondWithError StatusUnauthorized ''Invalid or expired token'', s))"
  using assms
  by (simp add: authMiddleware_def Let_def TrimPrefix_def HasPrefix_def)

text \<open>
  Claim C1. The registry check of the gate answers true exactly for the keys of the
  registry; the expiry stored with the key plays no part, so a token whose expiry is
  already before the clock of the call, and that no sweep has removed yet, is let
  through to the wrapped handler. A request that carries \<open>Bearer token\<close> with a
  non-empty token reaches the wrapped handler exactly when the check answers true.
\<close>

theorem validate_iff_present:
  "(validate vt token \<longleftrightarrow> token \<in> dom vt) \<and>
   (vt token = Some expiry \<and> After now expiry \<longrightarrow> validate vt token) \<and>
   (token \<noteq> [] \<and> Authorization r = ''Bearer '' @ token \<longrightarrow>
      authMiddleware inner e r s =
        (if token \<in> dom (validTokens s) then inner e r s
         else (respondWithError StatusUnauthorized ''Invalid or expired token'', s))) \<and>
   (token \<noteq> [] \<and> Authorization r = ''Bearer '' @ token \<and>
    validTokens s token = Some expiry \<and> After (Now e) expiry \<longrightarrow>
      authMiddleware inner e r s = inner e r s)"
proof -
  have present: "validate vt token \<longleftrightarrow> token \<in> dom vt"
    by (rule validate_dom)
  have stale: "vt token = Some expiry \<and> After now expiry \<longrightarrow> validate vt token"
    by (simp add: validate_def)
  have gate: "token \<noteq> [] \<and> Authorization r = ''Bearer '' @ token \<longrightarrow>
      authMiddleware inner e r s =
        (if token \<in> dom (validTokens s) then inner e r s
         else (respondWithError StatusUnauthorized ''Invalid or expired token'', s))"
    using authMiddleware_Bearer [of token r inner e s] by (simp add: validate_dom)
  have late: "token \<noteq> [] \<and> Authorization r = ''Bearer '' @ token \<and>
    validTokens s token = Some expiry \<and> After (Now e) expiry \<longrightarrow>
      authMiddleware inner e r s = inner e r s"
    using authMiddleware_Bearer [of token r inner e s] by (simp add: validate_def)
  from present stale gate late show ?thesis by blast
qed

theorem validate_iff_present_witness:
  "validate [''t1'' \<mapsto> 5] ''t1'' \<and>
   After 10 5 \<and>
   authMiddleware (\<lambda>e r s. (Response StatusNoContent NoBody, s))
     \<lparr>Now = 10, uuid_New = ''u'', query_err = False, scan_err = False,
       rows_err = False, affected_err = False\<rparr>
     \<lparr>verb = DELETE, path = [''api'', ''heroes'', ''1''], Authorization = ''Bearer t1'',
      body = None\<rparr>
     \<lparr>validTokens = [''t1'' \<mapsto> 5], config_Users = [], store = ()\<rparr> =
   (Response StatusNoContent (NoBody :: unit payload),
    \<lparr>validTokens = [''t1'' \<mapsto> 5], config_Users = [], store = ()\<rparr>)"
  using validate_iff_present
    [where vt = "[''t1'' \<mapsto> 5]" and token = "''t1''" and expiry = 5 and now = 10
       and r = "\<lparr>verb = DELETE, path = [''api'', ''heroes'', ''1''],
                   Authorization = ''Bearer t1'', body = None\<rparr>"
       and e = "\<lparr>Now = 10, uuid_New = ''u'', query_err = False, scan_err = False,
       rows_err = False, affected_err = False\<rparr>"
       and s = "\<lparr>validTokens = [''t1'' \<mapsto> 5], config_Users = [], store = ()\<rparr>"
       and inner = "\<lambda>e r s. (Response StatusNoContent (NoBody :: unit payload), s)"]
  by (simp add: After_def)

section \<open>Login\<close>

lemma userFound_iff:
  "userFound users u p \<longleftrightarrow> (\<exists>user \<in> set users. Username user = u \<and> Password user = p)"
  by (induction users) auto

lemma login_accepts:
  assumes "body r = Some m"
    and "userFound (config_Users s) (field m ''username'') (field m ''password'')"
  shows "login e r s =
           (respondWithJSON StatusOK (LoginResponse (uuid_New e)),
            s\<lparr>validTokens := (validTokens s)(uuid_New e \<mapsto> Now e + 24 * Hour)\<rparr>)"
  using assms by (simp add: login_def decodeLoginRequest_def Let_def)

lemma login_rejects:
  assumes "body r = Some m"
    and "\<not> userFound (config_Users s) (field m ''username'') (field m ''password'')"
  shows "login e r s = (respondWithError StatusUnauthorized ''Invalid username or password'', s)"
  using assms by (simp add: login_def decodeLoginRequest_def)

text \<open>
  Claim C6. For a login request whose body decodes: when the pair decoded from it equals
  an entry of the credential list in both fields (string equality, so upper and lower
  case differ), \<open>login\<close> answers 200 with the token the UUID generator gave, stores it
  with the expiry 24 hours after the clock, and the gate lets a request with that
  bearer token through in the state \<open>login\<close> leaves, provided the generated string
  is not empty, as the text of a UUID never is; when the pair equals no entry it
  answers 401 and the state is the one before.
\<close>

theorem login_issues_or_rejects:
  "body r = Some m \<longrightarrow>
     (if \<exists>user \<in> set (config_Users s).
            Username user = field m ''username'' \<and> Password user = field m ''password''
      then let s' = s\<lparr>validTokens := (validTokens s)(uuid_New e \<mapsto> Now e + 24 * Hour)\<rparr> in
           (login e r s :: 'h response \<times> 'store server) =
             (Response StatusOK (LoginResponse (uuid_New e)), s') \<and>
           validate (validTokens s') (uuid_New e) \<and>
           (uuid_New e \<noteq> [] \<and> Authorization r' = ''Bearer '' @ uuid_New e \<longrightarrow>
              authMiddleware inner e' r' s' = (inner e' r' s' :: 'h response \<times> 'store server))
      else (login e r s :: 'h response \<times> 'store server) =
             (Response StatusUnauthorized (ErrorResponse ''Invalid username or password''), s))"
proof (intro impI)
  assume b: "body r = Some m"
  define s' where "s' = s\<lparr>validTokens := (validTokens s)(uuid_New e \<mapsto> Now e + 24 * Hour)\<rparr>"
  show "if \<exists>user \<in> set (config_Users s).
            Username user = field m ''username'' \<and> Password user = field m ''password''
      then let s' = s\<lparr>validTokens := (validTokens s)(uuid_New e \<mapsto> Now e + 24 * Hour)\<rparr> in
           (login e r s :: 'h response \<times> 'store server) =
             (Response StatusOK (LoginResponse (uuid_New e)), s') \<and>
           validate (validTokens s') (uuid_New e) \<and>
           (uuid_New e \<noteq> [] \<and> Authorization r' = ''Bearer '' @ uuid_New e \<longrightarrow>
              authMiddleware inner e' r' s' = (inner e' r' s' :: 'h response \<times> 'store server))
      else (login e r s :: 'h response \<times> 'store server) =
             (Response StatusUnauthorized (ErrorResponse ''Invalid username or password''), s)"
  proof (cases "\<exists>user \<in> set (config_Users s).
            Username user = field m ''username'' \<and> Password user = field m ''password''")
    case True
    then have f: "userFound (config_Users s) (field m ''username'') (field m ''password'')"
      by (simp add: userFound_iff)
    have l: "(login e r s :: 'h response \<times> 'store server) =
               (Response StatusOK (LoginResponse (uuid_New e)), s')"
      by (simp add: login_accepts [OF b f] respondWithJSON_def s'_def)
    have v: "validate (validTokens s') (uuid_New e)"
      by (simp add: s'_def validate_def)
    have g: "uuid_New e \<noteq> [] \<and> Authorization r' = ''Bearer '' @ uuid_New e \<longrightarrow>
              authMiddleware inner e' r' s' = (inner e' r' s' :: 'h response \<times> 'store server)"
    proof (intro impI, elim conjE)
      assume ne: "uuid_New e \<noteq> []" and au: "Authorization r' = ''Bearer '' @ uuid_New e"
      from v show "authMiddleware inner e' r' s' = (inner e' r' s' :: 'h response \<times> 'store server)"
        by (simp add: authMiddleware_Bearer [OF ne au])
    qed
    from True l v g show ?thesis
      unfolding Let_def s'_def by simp
  next
    case False
    then have f: "\<not> userFound (config_Users s) (field m ''username'') (field m ''password'')"
      by (simp add: userFound_iff)
    from False show ?thesis
      by (simp add: login_rejects [OF b f] respondWithError_def respondWithJSON_def)
  qed
qed

theorem login_issues_or_rejects_witness:
  "login \<lparr>Now = 10, uuid_New = ''tok'', query_err = False, scan_err = False,
           rows_err = False, affected_err = False\<rparr>
     \<lparr>verb = POST, path = [''api'', ''login''], Authorization = [],
      body = Some [(''USERNAME'', ''user1''), (''Password'', ''12345'')]\<rparr>
     \<lparr>validTokens = Map.empty,
      config_Users = [\<lparr>Username = ''user1'', Password = ''12345''\<rparr>,
                      \<lparr>Username = ''user2'', Password = ''mahauser''\<rparr>],
      store = ()\<rparr> =
   (Response StatusOK (LoginResponse ''tok'' :: unit payload),
    \<lparr>validTokens = [''tok'' \<mapsto> 10 + 24 * Hour],
     config_Users = [\<lparr>Username = ''user1'', Password = ''12345''\<rparr>,
                     \<lparr>Username = ''user2'', Password = ''mahauser''\<rparr>],
     store = ()\<rparr>) \<and>
   authMiddleware (\<lambda>e r s. (Response StatusNoContent NoBody, s))
     \<lparr>Now = 11, uuid_New = ''x'', query_err = False, scan_err = False,
      rows_err = False, affected_err = False\<rparr>
     \<lparr>verb = DELETE, path = [''api'', ''heroes'', ''1''], Authorization = ''Bearer tok'',
      body = None\<rparr>
     \<lparr>validTokens = [''tok'' \<mapsto> 10 + 24 * Hour],
      config_Users = [\<lparr>Username = ''user1'', Password = ''12345''\<rparr>,
                      \<lparr>Username = ''user2'', Password = ''mahauser''\<rparr>],
      store = ()\<rparr> =
   (Response StatusNoContent (NoBody :: unit payload),
    \<lparr>validTokens = [''tok'' \<mapsto> 10 + 24 * Hour],
     config_Users = [\<lparr>Username = ''user1'', Password = ''12345''\<rparr>,
                     \<lparr>Username = ''user2'', Password = ''mahauser''\<rparr>],
     store = ()\<rparr>) \<and>
   login \<lparr>Now = 10, uuid_New = ''tok'', query_err = False, scan_err = False,
           rows_err = False, affected_err = False\<rparr>
     \<lparr>verb = POST, path = [''api'', ''login''], Authorization = [],
      body = Some [(''username'', ''User1''), (''password'', ''12345'')]\<rparr>
     \<lparr>validTokens = Map.empty,
      config_Users = [\<lparr>Username = ''user1'', Password = ''12345''\<rparr>,
                      \<lparr>Username = ''user2'', Password = ''mahauser''\<rparr>],
      store = ()\<rparr> =
   (Response StatusUnauthorized (ErrorResponse ''Invalid username or password'' :: unit payload),
    \<lparr>validTokens = Map.empty,
     config_Users = [\<lparr>Username = ''user1'', Password = ''12345''\<rparr>,
                     \<lparr>Username = ''user2'', Password = ''mahauser''\<rparr>],
     store = ()\<rparr>)"
proof -
  note accepted = login_issues_or_rejects
    [where r = "\<lparr>verb = POST, path = [''api'', ''login''], Authorization = [],
                  body = Some [(''USERNAME'', ''user1''), (''Password'', ''12345'')]\<rparr>"
       and m = "[(''USERNAME'', ''user1''), (''Password'', ''12345'')]"
       and e = "\<lparr>Now = 10, uuid_New = ''tok'', query_err = False, scan_err = False,
                  rows_err = False, affected_err = False\<rparr>"
       and s = "\<lparr>validTokens = Map.empty,
                  config_Users = [\<lparr>Username = ''user1'', Password = ''12345''\<rparr>,
                                  \<lparr>Username = ''user2'', Password = ''mahauser''\<rparr>],
                  store = ()\<rparr>"
       and r' = "\<lparr>verb = DELETE, path = [''api'', ''heroes'', ''1''],
                   Authorization = ''Bearer tok'', body = None\<rparr>"
       and e' = "\<lparr>Now = 11, uuid_New = ''x'', query_err = False, scan_err = False,
                   rows_err = False, affected_err = False\<rparr>"
       and inner = "\<lambda>e r s. (Response StatusNoContent (NoBody :: unit payload), s)"]
  note rejected = login_issues_or_rejects
    [where r = "\<lparr>verb = POST, path = [''api'', ''login''], Authorization = [],
                  body = Some [(''username'', ''User1''), (''password'', ''12345'')]\<rparr>"
       and m = "[(''username'', ''User1''), (''password'', ''12345'')]"
       and e = "\<lparr>Now = 10, uuid_New = ''tok'', query_err = False, scan_err = False,
                  rows_err = False, affected_err = False\<rparr>"
       and s = "\<lparr>validTokens = Map.empty,
                  config_Users = [\<lparr>Username = ''user1'', Password = ''12345''\<rparr>,
                                  \<lparr>Username = ''user2'', Password = ''mahauser''\<rparr>],
                  store = ()\<rparr>"
       and inner = "\<lambda>e r s. (Response StatusNoContent (NoBody :: unit payload), s)"]
  from accepted rejected show ?thesis
    by (simp add: field_def upper_def Let_def)
qed

section \<open>The sweep\<close>

lemma fold_sweep_entry:
  "fold (sweep_entry now) keys vt token =
     (case vt token of
        None \<Rightarrow> None
      | Some expiry \<Rightarrow> if token \<in> set keys \<and> After now expiry then None else Some expiry)"
proof (induction keys arbitrary: vt)
  case Nil
  then show ?case by (simp split: option.splits)
next
  case (Cons k keys)
  show ?case
    by (simp add: Cons.IH) (auto simp: sweep_entry_def split: option.splits)
qed

text \<open>
  Claim C9. After one pass of the sweep that read the clock \<open>t\<close>, whatever the order in
  which the range produced the entries: no entry of the registry has an expiry before
  \<open>t\<close>; every entry whose expiry was before \<open>t\<close> is gone; every entry whose expiry was
  not before \<open>t\<close> is kept with its expiry; nothing is added and the rest of the state
  is untouched. So a token that has expired is gone after the first pass whose clock
  is past its expiry.
\<close>

theorem sweep_removes_exactly_expired:
  "set keys = dom (validTokens s) \<longrightarrow>
     (let s' = cleanExpiredTokens e keys s in
      (\<forall>token expiry. validTokens s' token = Some expiry \<longrightarrow> \<not> expiry < Now e) \<and>
      (\<forall>token expiry. validTokens s token = Some expiry \<and> expiry < Now e \<longrightarrow>
         validTokens s' token = None) \<and>
      (\<forall>token expiry. validTokens s token = Some expiry \<and> \<not> expiry < Now e \<longrightarrow>
         validTokens s' token = Some expiry) \<and>
      (\<forall>token. validTokens s token = None \<longrightarrow> validTokens s' token = None) \<and>
      config_Users s' = config_Users s \<and> store s' = store s)"
proof (intro impI)
  assume k: "set keys = dom (validTokens s)"
  have v: "validTokens (cleanExpiredTokens e keys s) token =
             (case validTokens s token of
                None \<Rightarrow> None
              | Some expiry \<Rightarrow> if expiry < Now e then None else Some expiry)" for token
    using k by (auto simp: cleanExpiredTokens_def fold_sweep_entry After_def split: option.splits)
  have frame: "config_Users (cleanExpiredTokens e keys s) = config_Users s \<and>
               store (cleanExpiredTokens e keys s) = store s"
    by (simp add: cleanExpiredTokens_def)
  show "let s' = cleanExpiredTokens e keys s in
      (\<forall>token expiry. validTokens s' token = Some expiry \<longrightarrow> \<not> expiry < Now e) \<and>
      (\<forall>token expiry. validTokens s token = Some expiry \<and> expiry < Now e \<longrightarrow>
         validTokens s' token = None) \<and>
      (\<forall>token expiry. validTokens s token = Some expiry \<and> \<not> expiry < Now e \<longrightarrow>
         validTokens s' token = Some expiry) \<and>
      (\<forall>token. validTokens s token = None \<longrightarrow> validTokens s' token = None) \<and>
      config_Users s' = config_Users s \<and> store s' = store s"
    unfolding Let_def using frame by (auto simp: v split: option.splits if_splits)
qed

theorem sweep_removes_exactly_expired_witness:
  "set [''old'', ''due'', ''new''] = dom [''old'' \<mapsto> (5::int), ''due'' \<mapsto> 10, ''new'' \<mapsto> 20] \<and>
   validTokens (cleanExpiredTokens
     \<lparr>Now = 10, uuid_New = ''u'', query_err = False, scan_err = False,
      rows_err = False, affected_err = False\<rparr>
     [''old'', ''due'', ''new'']
     \<lparr>validTokens = [''old'' \<mapsto> 5, ''due'' \<mapsto> 10, ''new'' \<mapsto> 20],
      config_Users = [], store = ()\<rparr>) ''old'' = None \<and>
   validTokens (cleanExpiredTokens
     \<lparr>Now = 10, uuid_New = ''u'', query_err = False, scan_err = False,
      rows_err = False, affected_err = False\<rparr>
     [''old'', ''due'', ''new'']
     \<lparr>validTokens = [''old'' \<mapsto> 5, ''due'' \<mapsto> 10, ''new'' \<mapsto> 20],
      config_Users = [], store = ()\<rparr>) ''due'' = Some 10 \<and>
   validTokens (cleanExpiredTokens
     \<lparr>Now = 10, uuid_New = ''u'', query_err = False, scan_err = False,
      rows_err = False, affected_err = False\<rparr>
     [''old'', ''due'', ''new'']
     \<lparr>validTokens = [''old'' \<mapsto> 5, ''due'' \<mapsto> 10, ''new'' \<mapsto> 20],
      config_Users = [], store = ()\<rparr>) ''new'' = Some 20"
proof -
  let ?e = "\<lparr>Now = 10, uuid_New = ''u'', query_err = False, scan_err = False,
             rows_err = False, affected_err = False\<rparr>"
  let ?s = "\<lparr>validTokens = [''old'' \<mapsto> 5, ''due'' \<mapsto> 10, ''new'' \<mapsto> 20],
             config_Users = [], store = ()\<rparr>"
  let ?keys = "[''old'', ''due'', ''new'']"
  have enum: "set [''old'', ''due'', ''new''] =
                dom [''old'' \<mapsto> (5::int), ''due'' \<mapsto> 10, ''new'' \<mapsto> 20]"
    by (simp add: dom_def) blast
  then have keys: "set ?keys = dom (validTokens ?s)"
    by simp
  note pass = sweep_removes_exactly_expired
    [where keys = ?keys and e = ?e and s = ?s, THEN mp, OF keys, unfolded Let_def]
  have old: "validTokens ?s ''old'' = Some 5 \<and> 5 < Now ?e"
    by simp
  have due: "validTokens ?s ''due'' = Some 10 \<and> \<not> 10 < Now ?e"
    by simp
  have new: "validTokens ?s ''new'' = Some 20 \<and> \<not> 20 < Now ?e"
    by simp
  note removed = pass [THEN conjunct2, THEN conjunct1, rule_format, OF old]
  note kept = pass [THEN conjunct2, THEN conjunct2, THEN conjunct1, rule_format]
  from enum removed kept [OF due] kept [OF new] show ?thesis
    by blast
qed

section \<open>Decimal identifiers, proved\<close>

lemma digit_of_digit_char: "k < 10 \<Longrightarrow> digit_of (digit_char k) = Some k"
proof -
  have "\<forall>k<10. digit_of (digit_char k) = Some k"
    by (simp add: eval_nat_numeral All_less_Suc digit_of_def digit_char_def)
  then show "k < 10 \<Longrightarrow> digit_of (digit_char k) = Some k"
    by blast
qed

lemma digit_of_sign: "digit_of CHR ''-'' = None" "digit_of CHR ''+'' = None"
  by (simp_all add: digit_of_def)

lemma parse_digits_append:
  "parse_digits (xs @ ys) n =
     (case parse_digits xs n of None \<Rightarrow> None | Some m \<Rightarrow> parse_digits ys m)"
  by (induction xs arbitrary: n) (auto split: option.splits)

lemma parse_digits_FormatUint: "parse_digits (FormatUint k) 0 = Some k"
proof (induction k rule: FormatUint.induct)
  case (1 n)
  show ?case
  proof (cases "n < 10")
    case True
    then show ?thesis
      by (simp add: FormatUint.simps [of n] digit_of_digit_char)
  next
    case False
    with 1 have "parse_digits (FormatUint (n div 10)) 0 = Some (n div 10)"
      by simp
    moreover have "digit_of (digit_char (n mod 10)) = Some (n mod 10)"
      by (simp add: digit_of_digit_char)
    ultimately show ?thesis
      using False by (simp add: FormatUint.simps [of n] parse_digits_append)
  qed
qed

lemma FormatUint_digits: "list_all (\<lambda>c. digit_of c \<noteq> None) (FormatUint k)"
proof (induction k rule: FormatUint.induct)
  case (1 n)
  show ?case
  proof (cases "n < 10")
    case True
    then show ?thesis
      by (simp add: FormatUint.simps [of n] digit_of_digit_char)
  next
    case False
    with 1 show ?thesis
      by (simp add: FormatUint.simps [of n] digit_of_digit_char)
  qed
qed

lemma FormatUint_not_Nil: "FormatUint k \<noteq> []"
  by (simp add: FormatUint.simps [of k])

lemma all_digits_FormatUint: "all_digits (FormatUint k)"
  unfolding all_digits_def using FormatUint_digits FormatUint_not_Nil by blast

lemma all_digits_no_sign:
  "all_digits (c # cs) \<Longrightarrow> c \<noteq> CHR ''-'' \<and> c \<noteq> CHR ''+''"
  by (auto simp: all_digits_def digit_of_sign)

lemma numeric_string_Itoa: "numeric_string (Itoa n)"
proof (cases "n < 0")
  case True
  then show ?thesis
    by (simp add: Itoa_def numeric_string_def all_digits_FormatUint)
next
  case False
  obtain c cs where f: "FormatUint (nat n) = c # cs"
    using FormatUint_not_Nil [of "nat n"] by (cases "FormatUint (nat n)") auto
  with all_digits_FormatUint [of "nat n"] have "all_digits (c # cs)" by simp
  with f False all_digits_no_sign [of c cs] show ?thesis
    by (simp add: Itoa_def numeric_string_def)
qed

lemma Atoi_Itoa: "- (2 ^ 63) \<le> n \<Longrightarrow> n < 2 ^ 63 \<Longrightarrow> Atoi (Itoa n) = Some n"
proof (cases "n < 0")
  case True
  assume "- (2 ^ 63) \<le> n" "n < 2 ^ 63"
  with True show ?thesis
    by (simp add: Itoa_def Atoi_def FormatUint_not_Nil parse_digits_FormatUint)
next
  case False
  assume r: "- (2 ^ 63) \<le> n" "n < 2 ^ 63"
  obtain c cs where f: "FormatUint (nat n) = c # cs"
    using FormatUint_not_Nil [of "nat n"] by (cases "FormatUint (nat n)") auto
  with all_digits_FormatUint [of "nat n"] have "all_digits (c # cs)" by simp
  then have ns: "c \<noteq> CHR ''-''" "c \<noteq> CHR ''+''"
    using all_digits_no_sign by blast+
  have p: "parse_digits (c # cs) 0 = Some (nat n)"
    using parse_digits_FormatUint [of "nat n"] f by simp
  from False r ns show ?thesis
    unfolding Itoa_def Atoi_def using f p by (simp add: Let_def)
qed

lemma parse_digits_Some_digits:
  "parse_digits ds n = Some v \<Longrightarrow> list_all (\<lambda>c. digit_of c \<noteq> None) ds"
  by (induction ds arbitrary: n) (auto split: option.splits)

lemma Atoi_Some_numeric: "Atoi s = Some v \<Longrightarrow> numeric_string s"
proof (cases s)
  case Nil
  assume "Atoi s = Some v"
  with Nil show ?thesis by (simp add: Atoi_def)
next
  case (Cons c cs)
  assume a: "Atoi s = Some v"
  show ?thesis
  proof (cases "c = CHR ''-'' \<or> c = CHR ''+''")
    case True
    with a Cons obtain k where "cs \<noteq> []" "parse_digits cs 0 = Some k"
      by (auto simp: Atoi_def Let_def split: if_splits option.splits)
    with True Cons show ?thesis
      by (auto simp: numeric_string_def all_digits_def dest: parse_digits_Some_digits)
  next
    case False
    with a Cons obtain k where "parse_digits (c # cs) 0 = Some k"
      by (auto simp: Atoi_def Let_def split: if_splits option.splits)
    then have "list_all (\<lambda>c. digit_of c \<noteq> None) (c # cs)"
      by (rule parse_digits_Some_digits)
    with False Cons show ?thesis
      by (simp add: numeric_string_def all_digits_def)
  qed
qed

lemma Atoi_not_numeric: "\<not> numeric_string s \<Longrightarrow> Atoi s = None"
  using Atoi_Some_numeric by (cases "Atoi s") auto

section \<open>Logout\<close>

lemma routes_logout:
  "path r = [''api'', ''logout''] \<Longrightarrow> verb r = POST \<Longrightarrow> routes r = Some logout"
  by (simp add: routes_def)

lemma ServeHTTP_logout:
  "path r = [''api'', ''logout''] \<Longrightarrow> verb r = POST \<Longrightarrow>
     ServeHTTP e r s = Some (logout e r s)"
  by (simp add: ServeHTTP_def routes_logout corsMiddleware_def)

lemma logout_no_header:
  "Authorization r = [] \<Longrightarrow>
     logout e r s = (respondWithError StatusUnauthorized ''Authorization header required'', s)"
  by (simp add: logout_def)

lemma logout_no_token:
  "Authorization r = ''Bearer '' \<Longrightarrow>
     logout e r s = (respondWithError StatusUnauthorized ''Token required'', s)"
  by (simp add: logout_def TrimPrefix_def HasPrefix_def)

lemma logout_Bearer:
  assumes "token \<noteq> []" and "Authorization r = ''Bearer '' @ token"
  shows "logout e r s =
           (respondWithJSON StatusOK (SuccessResponse ''Logged out successfully''),
            s\<lparr>validTokens := (validTokens s)(token := None)\<rparr>)"
  using assms by (simp add: logout_def Let_def TrimPrefix_def HasPrefix_def)

lemma forget_absent:
  "validTokens s token = None \<Longrightarrow> s\<lparr>validTokens := (validTokens s)(token := None)\<rparr> = s"
proof -
  assume "validTokens s token = None"
  then have "(validTokens s)(token := None) = validTokens s"
    by (simp add: fun_upd_idem)
  then show ?thesis by simp
qed

text \<open>
  Claim C2 as stated fails: a logout request whose bearer token is not in the registry
  is not refused with 401. The route runs \<open>logout\<close> without the gate, and \<open>logout\<close>
  deletes the key it is given without looking it up first.
\<close>

theorem logout_ungated_counterexample:
  "''nobody'' \<notin> dom (Map.empty :: string \<rightharpoonup> instant) \<and>
   ServeHTTP
     \<lparr>Now = 10, uuid_New = ''u'', query_err = False, scan_err = False,
      rows_err = False, affected_err = False\<rparr>
     \<lparr>verb = POST, path = [''api'', ''logout''], Authorization = ''Bearer nobody'',
      body = None\<rparr>
     \<lparr>validTokens = Map.empty, config_Users = [],
      store = \<lparr>heroes = [], heroes_id_seq = 0\<rparr>\<rparr> =
   Some (Response StatusOK (SuccessResponse ''Logged out successfully''),
         \<lparr>validTokens = Map.empty, config_Users = [],
          store = \<lparr>heroes = [], heroes_id_seq = 0\<rparr>\<rparr>) \<and>
   StatusOK \<noteq> StatusUnauthorized"
  by (simp add: ServeHTTP_def routes_def corsMiddleware_def logout_def TrimPrefix_def
      HasPrefix_def respondWithJSON_def)

text \<open>
  Claim C2, amended. The route POST /api/logout is registered with \<open>logout\<close> itself,
  not behind the gate. A logout request without an Authorization header is refused with
  401, and so is one whose header is \<open>Bearer\<close> and a space with nothing after it; the
  registry stays as it was. A request that carries \<open>Bearer\<close> and a non-empty token is
  answered 200 and the token is removed from the registry, whether it was registered
  or not; removing a token that was not registered changes nothing.
\<close>

theorem logout_revokes_without_gate:
  "path r = [''api'', ''logout''] \<and> verb r = POST \<longrightarrow>
     routes r = Some logout \<and>
     (Authorization r = [] \<longrightarrow>
        ServeHTTP e r s =
          Some (Response StatusUnauthorized (ErrorResponse ''Authorization header required''), s)) \<and>
     (Authorization r = ''Bearer '' \<longrightarrow>
        ServeHTTP e r s =
          Some (Response StatusUnauthorized (ErrorResponse ''Token required''), s)) \<and>
     (token \<noteq> [] \<and> Authorization r = ''Bearer '' @ token \<longrightarrow>
        ServeHTTP e r s =
          Some (Response StatusOK (SuccessResponse ''Logged out successfully''),
                s\<lparr>validTokens := (validTokens s)(token := None)\<rparr>) \<and>
        (token \<notin> dom (validTokens s) \<longrightarrow>
           s\<lparr>validTokens := (validTokens s)(token := None)\<rparr> = s))"
proof (intro impI, elim conjE)
  assume p: "path r = [''api'', ''logout'']" and v: "verb r = POST"
  have routed: "ServeHTTP e r s = Some (logout e r s)"
    using p v by (rule ServeHTTP_logout)
  have missing: "Authorization r = [] \<longrightarrow>
        ServeHTTP e r s =
          Some (Response StatusUnauthorized (ErrorResponse ''Authorization header required''), s)"
    by (simp add: routed logout_no_header respondWithError_def respondWithJSON_def)
  have empty: "Authorization r = ''Bearer '' \<longrightarrow>
        ServeHTTP e r s =
          Some (Response StatusUnauthorized (ErrorResponse ''Token required''), s)"
  proof
    assume "Authorization r = ''Bearer ''"
    then show "ServeHTTP e r s =
          Some (Response StatusUnauthorized (ErrorResponse ''Token required''), s)"
      by (simp add: routed logout_no_token respondWithError_def respondWithJSON_def)
  qed
  have revoked: "token \<noteq> [] \<and> Authorization r = ''Bearer '' @ token \<longrightarrow>
        ServeHTTP e r s =
          Some (Response StatusOK (SuccessResponse ''Logged out successfully''),
                s\<lparr>validTokens := (validTokens s)(token := None)\<rparr>) \<and>
        (token \<notin> dom (validTokens s) \<longrightarrow>
           s\<lparr>validTokens := (validTokens s)(token := None)\<rparr> = s)"
  proof (intro impI conjI)
    assume "token \<noteq> [] \<and> Authorization r = ''Bearer '' @ token"
    then have t: "token \<noteq> []" and a: "Authorization r = ''Bearer '' @ token"
      by blast+
    show "ServeHTTP e r s =
          Some (Response StatusOK (SuccessResponse ''Logged out successfully''),
                s\<lparr>validTokens := (validTokens s)(token := None)\<rparr>)"
      by (simp add: routed logout_Bearer [OF t a] respondWithJSON_def)
  next
    assume "token \<notin> dom (validTokens s)"
    then have "validTokens s token = None" by (simp add: domIff)
    then show "s\<lparr>validTokens := (validTokens s)(token := None)\<rparr> = s"
      by (rule forget_absent)
  qed
  from routes_logout [OF p v] missing empty revoked
  show "routes r = Some logout \<and>
     (Authorization r = [] \<longrightarrow>
        ServeHTTP e r s =
          Some (Response StatusUnauthorized (ErrorResponse ''Authorization header required''), s)) \<and>
     (Authorization r = ''Bearer '' \<longrightarrow>
        ServeHTTP e r s =
          Some (Response StatusUnauthorized (ErrorResponse ''Token required''), s)) \<and>
     (token \<noteq> [] \<and> Authorization r = ''Bearer '' @ token \<longrightarrow>
        ServeHTTP e r s =
          Some (Response StatusOK (SuccessResponse ''Logged out successfully''),
                s\<lparr>validTokens := (validTokens s)(token := None)\<rparr>) \<and>
        (token \<notin> dom (validTokens s) \<longrightarrow>
           s\<lparr>validTokens := (validTokens s)(token := None)\<rparr> = s))"
    by blast
qed

theorem logout_revokes_without_gate_witness:
  "ServeHTTP
     \<lparr>Now = 10, uuid_New = ''u'', query_err = False, scan_err = False,
      rows_err = False, affected_err = False\<rparr>
     \<lparr>verb = POST, path = [''api'', ''logout''], Authorization = ''Bearer tok'',
      body = None\<rparr>
     \<lparr>validTokens = [''tok'' \<mapsto> 99], config_Users = [],
      store = \<lparr>heroes = [], heroes_id_seq = 0\<rparr>\<rparr> =
   Some (Response StatusOK (SuccessResponse ''Logged out successfully''),
         \<lparr>validTokens = Map.empty, config_Users = [],
          store = \<lparr>heroes = [], heroes_id_seq = 0\<rparr>\<rparr>) \<and>
   ServeHTTP
     \<lparr>Now = 10, uuid_New = ''u'', query_err = False, scan_err = False,
      rows_err = False, affected_err = False\<rparr>
     \<lparr>verb = POST, path = [''api'', ''logout''], Authorization = [], body = None\<rparr>
     \<lparr>validTokens = [''tok'' \<mapsto> 99], config_Users = [],
      store = \<lparr>heroes = [], heroes_id_seq = 0\<rparr>\<rparr> =
   Some (Response StatusUnauthorized (ErrorResponse ''Authorization header required''),
         \<lparr>validTokens = [''tok'' \<mapsto> 99], config_Users = [],
          store = \<lparr>heroes = [], heroes_id_seq = 0\<rparr>\<rparr>)"
proof -
  note revoke = logout_revokes_without_gate
    [where r = "\<lparr>verb = POST, path = [''api'', ''logout''], Authorization = ''Bearer tok'',
                  body = None\<rparr>"
       and token = "''tok''"
       and e = "\<lparr>Now = 10, uuid_New = ''u'', query_err = False, scan_err = False,
                  rows_err = False, affected_err = False\<rparr>"
       and s = "\<lparr>validTokens = [''tok'' \<mapsto> 99], config_Users = [],
                  store = \<lparr>heroes = [], heroes_id_seq = 0\<rparr>\<rparr>"]
  note refuse = logout_revokes_without_gate
    [where r = "\<lparr>verb = POST, path = [''api'', ''logout''], Authorization = [],
                  body = None\<rparr>"
       and token = "''tok''"
       and e = "\<lparr>Now = 10, uuid_New = ''u'', query_err = False, scan_err = False,
                  rows_err = False, affected_err = False\<rparr>"
       and s = "\<lparr>validTokens = [''tok'' \<mapsto> 99], config_Users = [],
                  store = \<lparr>heroes = [], heroes_id_seq = 0\<rparr>\<rparr>"]
  from revoke refuse show ?thesis by simp
qed

section \<open>The gate, the routes and the lookup loop\<close>

lemma authMiddleware_passes:
  assumes "\<exists>token. token \<noteq> [] \<and> Authorization r = ''Bearer '' @ token \<and>
             token \<in> dom (validTokens s)"
  shows "authMiddleware inner e r s = inner e r s"
proof -
  from assms obtain token where t: "token \<noteq> []"
    and a: "Authorization r = ''Bearer '' @ token" and d: "token \<in> dom (validTokens s)"
    by blast
  from d show ?thesis
    by (simp add: authMiddleware_Bearer [OF t a] validate_dom)
qed

lemma HasPrefix_append: "HasPrefix s p \<Longrightarrow> s = p @ TrimPrefix s p"
  unfolding HasPrefix_def TrimPrefix_def
  by (metis append_take_drop_id)

lemma authMiddleware_refuses:
  assumes "\<not> (\<exists>token. token \<noteq> [] \<and> Authorization r = ''Bearer '' @ token \<and>
             token \<in> dom (validTokens s))"
  shows "\<exists>msg. authMiddleware inner e r s = (Response StatusUnauthorized (ErrorResponse msg), s)"
proof (cases "Authorization r \<noteq> [] \<and> HasPrefix (Authorization r) ''Bearer '' \<and>
              TrimPrefix (Authorization r) ''Bearer '' \<noteq> [] \<and>
              validate (validTokens s) (TrimPrefix (Authorization r) ''Bearer '')")
  case True
  then have "Authorization r = ''Bearer '' @ TrimPrefix (Authorization r) ''Bearer ''"
    using HasPrefix_append by blast
  with True assms show ?thesis
    unfolding validate_dom by blast
next
  case False
  then show ?thesis
    unfolding authMiddleware_def Let_def respondWithError_def respondWithJSON_def
    by (auto split: if_splits)
qed

lemma getHeroByID_bad_id:
  "\<not> numeric_string (Vars_id r) \<Longrightarrow>
     getHeroByID e r d = (Response StatusBadRequest (ErrorResponse ''Invalid hero ID''), d)"
  by (simp add: getHeroByID_def Atoi_not_numeric respondWithError_def respondWithJSON_def)

lemma updateHero_bad_id:
  "\<not> numeric_string (Vars_id r) \<Longrightarrow>
     updateHero e r d = (Response StatusBadRequest (ErrorResponse ''Invalid hero ID''), d)"
  by (simp add: updateHero_def Atoi_not_numeric respondWithError_def respondWithJSON_def)

lemma deleteHero_bad_id:
  "\<not> numeric_string (Vars_id r) \<Longrightarrow>
     deleteHero e r d = (Response StatusBadRequest (ErrorResponse ''Invalid hero ID''), d)"
  by (simp add: deleteHero_def Atoi_not_numeric respondWithError_def respondWithJSON_def)

lemma on_store_same:
  "h e r (store s) = (resp, store s) \<Longrightarrow> on_store h e r s = (resp, s)"
  by (simp add: on_store_def)

lemma routes_hero:
  assumes "path r = [''api'', ''heroes'', x]" and "x \<noteq> []"
  shows "routes r =
           (case verb r of
              GET \<Rightarrow> Some (on_store getHeroByID)
            | PUT \<Rightarrow> Some (authMiddleware (on_store updateHero))
            | DELETE \<Rightarrow> Some (authMiddleware (on_store deleteHero))
            | OPTIONS \<Rightarrow> Some preflight
            | _ \<Rightarrow> None)"
  using assms by (simp add: routes_def)

lemma routes_open_hero:
  assumes "path r = [''api'', ''heroes'', x]" and "x \<noteq> []"
  shows "routes_open r =
           (case verb r of
              PUT \<Rightarrow> Some updateHero_mem
            | DELETE \<Rightarrow> Some deleteHero_mem
            | OPTIONS \<Rightarrow> Some preflight
            | _ \<Rightarrow> None)"
  using assms by (simp add: routes_open_def)

lemma routes_mem_hero:
  assumes "path r = [''api'', ''heroes'', x]" and "x \<noteq> []"
  shows "routes_mem r =
           (case verb r of
              PUT \<Rightarrow> Some (authMiddleware (on_store updateHero_mem))
            | DELETE \<Rightarrow> Some (authMiddleware (on_store deleteHero_mem))
            | OPTIONS \<Rightarrow> Some preflight
            | _ \<Rightarrow> None)"
  using assms by (simp add: routes_mem_def)

lemma Vars_id_path: "path r = [a, b, x] \<Longrightarrow> Vars_id r = x"
  by (simp add: Vars_id_def)

lemma index_of_None_iff: "index_of hid hs = None \<longleftrightarrow> hid \<notin> ID_mem ` set hs"
  by (induction hs) auto

lemma index_of_Some:
  "index_of hid hs = Some i \<Longrightarrow>
     i < length hs \<and> ID_mem (hs ! i) = hid \<and> (\<forall>j<i. ID_mem (hs ! j) \<noteq> hid)"
proof (induction hs arbitrary: i)
  case Nil
  then show ?case by simp
next
  case (Cons h hs)
  show ?case
  proof (cases "ID_mem h = hid")
    case True
    with Cons.prems show ?thesis by simp
  next
    case False
    with Cons.prems obtain k where k: "index_of hid hs = Some k" "i = Suc k"
      by auto
    from Cons.IH [OF k(1)] False k(2) show ?thesis
      by (auto simp: less_Suc_eq_0_disj)
  qed
qed

lemma numeric_ids_absent:
  "list_all (\<lambda>h. numeric_string (ID_mem h)) hs \<Longrightarrow> \<not> numeric_string x \<Longrightarrow>
     index_of x hs = None"
  by (auto simp: index_of_None_iff list_all_iff)

lemma deleteHero_mem_absent:
  "index_of (Vars_id r) (heroes_mem st) = None \<Longrightarrow>
     deleteHero_mem e r st = (Response StatusNotFound (ErrorResponse ''Hero not found''), st)"
  by (simp add: deleteHero_mem_def respondWithError_def respondWithJSON_def)

lemma updateHero_mem_absent:
  "index_of (Vars_id r) (heroes_mem st) = None \<Longrightarrow>
     updateHero_mem e r st =
       (case body r of
          None \<Rightarrow> (Response StatusBadRequest (ErrorResponse ''Invalid request payload''), st)
        | Some m \<Rightarrow>
            if field m ''name'' = [] \<or> field m ''role'' = [] \<or> field m ''difficulty'' = []
            then (Response StatusBadRequest
                    (ErrorResponse ''Name, role, and difficulty are required''), st)
            else (Response StatusNotFound (ErrorResponse ''Hero not found''), st))"
  by (simp add: updateHero_mem_def decodeHero_mem_def respondWithError_def respondWithJSON_def
      split: option.splits)

section \<open>Identifiers that are not numbers\<close>

text \<open>
  Claim C3 as stated fails in the in-memory variant: its handlers never parse the
  identifier, they compare the path segment with the stored strings, so a DELETE on
  the segment \<open>abc\<close> is answered 404, not 400.
\<close>

theorem bad_id_not_found_counterexample:
  "\<not> numeric_string ''abc'' \<and>
   ServeHTTP_open
     \<lparr>Now = 10, uuid_New = ''u'', query_err = False, scan_err = False,
      rows_err = False, affected_err = False\<rparr>
     \<lparr>verb = DELETE, path = [''api'', ''heroes'', ''abc''], Authorization = [], body = None\<rparr>
     initHeroes =
   Some (Response StatusNotFound (ErrorResponse ''Hero not found''), initHeroes) \<and>
   StatusNotFound \<noteq> StatusBadRequest"
  by (simp add: numeric_string_def all_digits_def digit_of_def ServeHTTP_open_def
      routes_open_def corsMiddleware_def deleteHero_mem_def Vars_id_def initHeroes_def
      respondWithError_def respondWithJSON_def)

text \<open>
  Claim C3, amended. For a request to /api/heroes/{id} whose identifier segment is not
  a numeric string: in the durable variant a GET is answered 400 with the state
  unchanged; a PUT or DELETE is answered 400 when it passes the bearer-token gate and
  401 when it does not, the state unchanged either way. The in-memory variants have no
  GET route for this path and do not parse the identifier: with the stored identifiers
  numeric, a DELETE is answered 404, and a PUT is answered 400 for a body that does
  not decode or has an empty field and 404 otherwise, the store unchanged.
\<close>

theorem bad_id_is_refused:
  "path r = [''api'', ''heroes'', x] \<and> x \<noteq> [] \<and> \<not> numeric_string x \<longrightarrow>
     (verb r = GET \<longrightarrow>
        ServeHTTP e r s =
          Some (Response StatusBadRequest (ErrorResponse ''Invalid hero ID''), s)) \<and>
     (verb r = PUT \<or> verb r = DELETE \<longrightarrow>
        (if \<exists>token. token \<noteq> [] \<and> Authorization r = ''Bearer '' @ token \<and>
                    token \<in> dom (validTokens s)
         then ServeHTTP e r s =
                Some (Response StatusBadRequest (ErrorResponse ''Invalid hero ID''), s)
         else \<exists>msg. ServeHTTP e r s =
                Some (Response StatusUnauthorized (ErrorResponse msg), s))) \<and>
     (verb r = GET \<longrightarrow> routes_open r = None \<and> routes_mem r = None) \<and>
     (list_all (\<lambda>h. numeric_string (ID_mem h)) (heroes_mem st) \<longrightarrow>
        (verb r = DELETE \<longrightarrow>
           ServeHTTP_open e r st =
             Some (Response StatusNotFound (ErrorResponse ''Hero not found''), st)) \<and>
        (verb r = PUT \<longrightarrow>
           ServeHTTP_open e r st =
             Some (case body r of
                     None \<Rightarrow>
                       (Response StatusBadRequest (ErrorResponse ''Invalid request payload''), st)
                   | Some m \<Rightarrow>
                       if field m ''name'' = [] \<or> field m ''role'' = [] \<or>
                          field m ''difficulty'' = []
                       then (Response StatusBadRequest
                               (ErrorResponse ''Name, role, and difficulty are required''), st)
                       else (Response StatusNotFound (ErrorResponse ''Hero not found''), st))))"
proof (intro impI, elim conjE)
  assume p: "path r = [''api'', ''heroes'', x]" and x: "x \<noteq> []" and n: "\<not> numeric_string x"
  have v: "Vars_id r = x"
    using p by (rule Vars_id_path)
  note rt = routes_hero [OF p x]
  note ro = routes_open_hero [OF p x]
  note rm = routes_mem_hero [OF p x]
  have get: "verb r = GET \<longrightarrow>
        ServeHTTP e r s =
          Some (Response StatusBadRequest (ErrorResponse ''Invalid hero ID''), s)"
    using n
    by (simp add: ServeHTTP_def rt corsMiddleware_def on_store_same getHeroByID_bad_id v)
  have put: "ServeHTTP e r s = Some (authMiddleware (on_store updateHero) e r s)"
    if "verb r = PUT"
    using that by (simp add: ServeHTTP_def rt corsMiddleware_def)
  have del: "ServeHTTP e r s = Some (authMiddleware (on_store deleteHero) e r s)"
    if "verb r = DELETE"
    using that by (simp add: ServeHTTP_def rt corsMiddleware_def)
  have pu: "on_store updateHero e r s =
              (Response StatusBadRequest (ErrorResponse ''Invalid hero ID''), s)"
    using n by (simp add: on_store_same updateHero_bad_id v)
  have de: "on_store deleteHero e r s =
              (Response StatusBadRequest (ErrorResponse ''Invalid hero ID''), s)"
    using n by (simp add: on_store_same deleteHero_bad_id v)
  have gated: "verb r = PUT \<or> verb r = DELETE \<longrightarrow>
        (if \<exists>token. token \<noteq> [] \<and> Authorization r = ''Bearer '' @ token \<and>
                    token \<in> dom (validTokens s)
         then ServeHTTP e r s =
                Some (Response StatusBadRequest (ErrorResponse ''Invalid hero ID''), s)
         else \<exists>msg. ServeHTTP e r s =
                Some (Response StatusUnauthorized (ErrorResponse msg), s))"
  proof (cases "\<exists>token. token \<noteq> [] \<and> Authorization r = ''Bearer '' @ token \<and>
                    token \<in> dom (validTokens s)")
    case True
    then show ?thesis
      using put del pu de by (auto simp: authMiddleware_passes [OF True])
  next
    case False
    from authMiddleware_refuses [OF False] put del False show ?thesis
      by auto
  qed
  have noget: "verb r = GET \<longrightarrow> routes_open r = None \<and> routes_mem r = None"
    by (simp add: ro rm)
  have mem: "list_all (\<lambda>h. numeric_string (ID_mem h)) (heroes_mem st) \<longrightarrow>
        (verb r = DELETE \<longrightarrow>
           ServeHTTP_open e r st =
             Some (Response StatusNotFound (ErrorResponse ''Hero not found''), st)) \<and>
        (verb r = PUT \<longrightarrow>
           ServeHTTP_open e r st =
             Some (case body r of
                     None \<Rightarrow>
                       (Response StatusBadRequest (ErrorResponse ''Invalid request payload''), st)
                   | Some m \<Rightarrow>
                       if field m ''name'' = [] \<or> field m ''role'' = [] \<or>
                          field m ''difficulty'' = []
                       then (Response StatusBadRequest
                               (ErrorResponse ''Name, role, and difficulty are required''), st)
                       else (Response StatusNotFound (ErrorResponse ''Hero not found''), st)))"
  proof (intro impI conjI)
    assume inv: "list_all (\<lambda>h. numeric_string (ID_mem h)) (heroes_mem st)"
    have a: "index_of (Vars_id r) (heroes_mem st) = None"
      unfolding v using inv n by (rule numeric_ids_absent)
    {
      assume "verb r = DELETE"
      then show "ServeHTTP_open e r st =
             Some (Response StatusNotFound (ErrorResponse ''Hero not found''), st)"
        by (simp add: ServeHTTP_open_def ro corsMiddleware_def deleteHero_mem_absent [OF a])
    }
    {
      assume "verb r = PUT"
      then show "ServeHTTP_open e r st =
             Some (case body r of
                     None \<Rightarrow>
                       (Response StatusBadRequest (ErrorResponse ''Invalid request payload''), st)
                   | Some m \<Rightarrow>
                       if field m ''name'' = [] \<or> field m ''role'' = [] \<or>
                          field m ''difficulty'' = []
                       then (Response StatusBadRequest
                               (ErrorResponse ''Name, role, and difficulty are required''), st)
                       else (Response StatusNotFound (ErrorResponse ''Hero not found''), st))"
        by (simp add: ServeHTTP_open_def ro corsMiddleware_def updateHero_mem_absent [OF a])
    }
  qed
  from get gated noget mem
  show "(verb r = GET \<longrightarrow>
        ServeHTTP e r s =
          Some (Response StatusBadRequest (ErrorResponse ''Invalid hero ID''), s)) \<and>
     (verb r = PUT \<or> verb r = DELETE \<longrightarrow>
        (if \<exists>token. token \<noteq> [] \<and> Authorization r = ''Bearer '' @ token \<and>
                    token \<in> dom (validTokens s)
         then ServeHTTP e r s =
                Some (Response StatusBadRequest (ErrorResponse ''Invalid hero ID''), s)
         else \<exists>msg. ServeHTTP e r s =
                Some (Response StatusUnauthorized (ErrorResponse msg), s))) \<and>
     (verb r = GET \<longrightarrow> routes_open r = None \<and> routes_mem r = None) \<and>
     (list_all (\<lambda>h. numeric_string (ID_mem h)) (heroes_mem st) \<longrightarrow>
        (verb r = DELETE \<longrightarrow>
           ServeHTTP_open e r st =
             Some (Response StatusNotFound (ErrorResponse ''Hero not found''), st)) \<and>
        (verb r = PUT \<longrightarrow>
           ServeHTTP_open e r st =
             Some (case body r of
                     None \<Rightarrow>
                       (Response StatusBadRequest (ErrorResponse ''Invalid request payload''), st)
                   | Some m \<Rightarrow>
                       if field m ''name'' = [] \<or> field m ''role'' = [] \<or>
                          field m ''difficulty'' = []
                       then (Response StatusBadRequest
                               (ErrorResponse ''Name, role, and difficulty are required''), st)
                       else (Response StatusNotFound (ErrorResponse ''Hero not found''), st))))"
    by blast
qed

theorem bad_id_is_refused_witness:
  "ServeHTTP
     \<lparr>Now = 10, uuid_New = ''u'', query_err = False, scan_err = False,
      rows_err = False, affected_err = False\<rparr>
     \<lparr>verb = GET, path = [''api'', ''heroes'', ''abc''], Authorization = [], body = None\<rparr>
     \<lparr>validTokens = [''tok'' \<mapsto> 99], config_Users = [],
      store = \<lparr>heroes = [], heroes_id_seq = 0\<rparr>\<rparr> =
   Some (Response StatusBadRequest (ErrorResponse ''Invalid hero ID''),
         \<lparr>validTokens = [''tok'' \<mapsto> 99], config_Users = [],
          store = \<lparr>heroes = [], heroes_id_seq = 0\<rparr>\<rparr>) \<and>
   ServeHTTP
     \<lparr>Now = 10, uuid_New = ''u'', query_err = False, scan_err = False,
      rows_err = False, affected_err = False\<rparr>
     \<lparr>verb = DELETE, path = [''api'', ''heroes'', ''abc''], Authorization = ''Bearer tok'',
      body = None\<rparr>
     \<lparr>validTokens = [''tok'' \<mapsto> 99], config_Users = [],
      store = \<lparr>heroes = [], heroes_id_seq = 0\<rparr>\<rparr> =
   Some (Response StatusBadRequest (ErrorResponse ''Invalid hero ID''),
         \<lparr>validTokens = [''tok'' \<mapsto> 99], config_Users = [],
          store = \<lparr>heroes = [], heroes_id_seq = 0\<rparr>\<rparr>) \<and>
   ServeHTTP_open
     \<lparr>Now = 10, uuid_New = ''u'', query_err = False, scan_err = False,
      rows_err = False, affected_err = False\<rparr>
     \<lparr>verb = DELETE, path = [''api'', ''heroes'', ''abc''], Authorization = ''Bearer tok'',
      body = None\<rparr>
     initHeroes =
   Some (Response StatusNotFound (ErrorResponse ''Hero not found''), initHeroes)"
proof -
  note get = bad_id_is_refused
    [where r = "\<lparr>verb = GET, path = [''api'', ''heroes'', ''abc''], Authorization = [],
                  body = None\<rparr>"
       and x = "''abc''"
       and e = "\<lparr>Now = 10, uuid_New = ''u'', query_err = False, scan_err = False,
                  rows_err = False, affected_err = False\<rparr>"
       and s = "\<lparr>validTokens = [''tok'' \<mapsto> 99], config_Users = [],
                  store = \<lparr>heroes = [], heroes_id_seq = 0\<rparr>\<rparr>"
       and st = initHeroes]
  note del = bad_id_is_refused
    [where r = "\<lparr>verb = DELETE, path = [''api'', ''heroes'', ''abc''],
                  Authorization = ''Bearer tok'', body = None\<rparr>"
       and x = "''abc''"
       and e = "\<lparr>Now = 10, uuid_New = ''u'', query_err = False, scan_err = False,
                  rows_err = False, affected_err = False\<rparr>"
       and s = "\<lparr>validTokens = [''tok'' \<mapsto> 99], config_Users = [],
                  store = \<lparr>heroes = [], heroes_id_seq = 0\<rparr>\<rparr>"
       and st = initHeroes]
  have abc: "\<not> numeric_string ''abc''"
    by (simp add: numeric_string_def all_digits_def digit_of_def)
  have ids: "list_all (\<lambda>h. numeric_string (ID_mem h)) (heroes_mem initHeroes)"
    by (simp add: initHeroes_def numeric_string_def all_digits_def digit_of_def)
  have tok: "\<exists>token. token \<noteq> [] \<and> ''Bearer tok'' = ''Bearer '' @ token \<and>
               token \<in> dom [''tok'' \<mapsto> (99::int)]"
    by (rule exI [of _ "''tok''"]) simp
  from get del abc ids tok show ?thesis
    by simp
qed

section \<open>Create, read and delete\<close>

lemma find_id_append_new:
  "hid \<notin> ID ` set hs \<Longrightarrow> ID hero = hid \<Longrightarrow>
     find (\<lambda>h. ID h = hid) (hs @ [hero]) = Some hero"
  by (induction hs) auto

lemma find_id_None: "find (\<lambda>h. ID h = hid) hs = None \<longleftrightarrow> hid \<notin> ID ` set hs"
  by (induction hs) auto

lemma find_id_filtered: "find (\<lambda>h. ID h = hid) (filter (\<lambda>h. ID h \<noteq> hid) hs) = None"
  by (induction hs) auto

lemma createHero_Created:
  assumes "createHero e r d = (Response StatusCreated p, d')"
  shows "\<exists>m. body r = Some m \<and>
           field m ''name'' \<noteq> [] \<and> field m ''role'' \<noteq> [] \<and> field m ''difficulty'' \<noteq> [] \<and>
           \<not> query_err e \<and> heroes_id_seq d + 1 \<notin> ID ` set (heroes d) \<and>
           p = HeroJSON \<lparr>ID = heroes_id_seq d + 1, Name = field m ''name'',
                          Role = field m ''role'', Difficulty = field m ''difficulty'',
                          CreatedAt = Now e, UpdatedAt = Now e\<rparr> \<and>
           d' = \<lparr>heroes = heroes d @
                    [\<lparr>ID = heroes_id_seq d + 1, Name = field m ''name'',
                      Role = field m ''role'', Difficulty = field m ''difficulty'',
                      CreatedAt = Now e, UpdatedAt = Now e\<rparr>],
                  heroes_id_seq = heroes_id_seq d + 1\<rparr>"
proof (cases "body r")
  case None
  with assms show ?thesis
    by (simp add: createHero_def decodeHeroCreateRequest_def respondWithError_def
        respondWithJSON_def)
next
  case (Some m)
  with assms show ?thesis
    unfolding createHero_def decodeHeroCreateRequest_def insert_hero_def Let_def
      respondWithError_def respondWithJSON_def
    by (auto split: if_splits)
qed

lemma getHeroByID_found:
  assumes "Atoi (Vars_id r) = Some hid" and "\<not> query_err e"
    and "find (\<lambda>h. ID h = hid) (heroes d) = Some hero"
  shows "getHeroByID e r d = (Response StatusOK (HeroJSON hero), d)"
  using assms by (simp add: getHeroByID_def select_hero_def respondWithJSON_def)

lemma getHeroByID_absent:
  assumes "Atoi (Vars_id r) = Some hid" and "\<not> query_err e"
    and "hid \<notin> ID ` set (heroes d)"
  shows "getHeroByID e r d = (Response StatusNotFound (ErrorResponse ''Hero not found''), d)"
proof -
  from assms(3) have "find (\<lambda>h. ID h = hid) (heroes d) = None"
    by (simp add: find_id_None)
  with assms(1,2) show ?thesis
    by (simp add: getHeroByID_def select_hero_def respondWithError_def respondWithJSON_def)
qed

lemma find_id_append:
  "find (\<lambda>h. ID h = hid) hs = Some hero \<Longrightarrow> find (\<lambda>h. ID h = hid) (hs @ rest) = Some hero"
  by (induction hs) auto

lemma find_id_other_rows:
  "find (\<lambda>h. ID h = hid) hs = Some hero \<Longrightarrow> (\<And>h. ID h = hid \<Longrightarrow> f h = h) \<Longrightarrow>
     (\<And>h. ID (f h) = ID h) \<Longrightarrow> find (\<lambda>h. ID h = hid) (map f hs) = Some hero"
  by (induction hs) (auto split: if_splits)

lemma find_id_other_removed:
  "find (\<lambda>h. ID h = hid) hs = Some hero \<Longrightarrow> other \<noteq> hid \<Longrightarrow>
     find (\<lambda>h. ID h = hid) (filter (\<lambda>h. ID h \<noteq> other) hs) = Some hero"
  by (induction hs) (auto split: if_splits)

lemma insert_hero_keeps_row:
  assumes "find (\<lambda>h. ID h = hid) (heroes d) = Some hero"
  shows "find (\<lambda>h. ID h = hid) (heroes (snd (insert_hero e name role difficulty d))) = Some hero"
  using assms by (simp add: insert_hero_def Let_def find_id_append)

lemma createHero_keeps_row:
  assumes "find (\<lambda>h. ID h = hid) (heroes d) = Some hero"
  shows "find (\<lambda>h. ID h = hid) (heroes (snd (createHero e r d))) = Some hero"
proof (cases "decodeHeroCreateRequest (body r)")
  case None
  with assms show ?thesis
    by (simp add: createHero_def)
next
  case (Some req)
  show ?thesis
  proof (cases "create_Name req = [] \<or> create_Role req = [] \<or> create_Difficulty req = []")
    case True
    with assms Some show ?thesis
      by (auto simp: createHero_def)
  next
    case False
    have "snd (createHero e r d) =
            snd (insert_hero e (create_Name req) (create_Role req) (create_Difficulty req) d)"
      using Some False
      by (cases "insert_hero e (create_Name req) (create_Role req) (create_Difficulty req) d")
         (auto simp: createHero_def split: sum.splits)
    with insert_hero_keeps_row [OF assms] show ?thesis
      by simp
  qed
qed

lemma update_hero_keeps_row:
  assumes "find (\<lambda>h. ID h = hid) (heroes d) = Some hero" and "other \<noteq> hid"
  shows "find (\<lambda>h. ID h = hid)
           (heroes (snd (update_hero e name role difficulty other d))) = Some hero"
proof (cases "query_err e")
  case True
  with assms show ?thesis
    by (simp add: update_hero_def)
next
  case False
  define set_row :: "Hero \<Rightarrow> Hero"
    where "set_row = (\<lambda>h. if ID h = other
                           then h\<lparr>Name := name, Role := role, Difficulty := difficulty,
                                  UpdatedAt := Now e\<rparr>
                           else h)"
  have "heroes (snd (update_hero e name role difficulty other d)) = map set_row (heroes d)"
    using False
    by (cases "find (\<lambda>h. ID h = other) (map set_row (heroes d))")
       (simp_all add: update_hero_def Let_def set_row_def)
  moreover have "find (\<lambda>h. ID h = hid) (map set_row (heroes d)) = Some hero"
    using assms(1)
  proof (rule find_id_other_rows)
    fix h :: Hero
    show "ID (set_row h) = ID h"
      by (simp add: set_row_def)
    assume "ID h = hid"
    with assms(2) show "set_row h = h"
      by (simp add: set_row_def)
  qed
  ultimately show ?thesis
    by simp
qed

lemma updateHero_keeps_row:
  assumes "find (\<lambda>h. ID h = hid) (heroes d) = Some hero" and "Atoi (Vars_id r) \<noteq> Some hid"
  shows "find (\<lambda>h. ID h = hid) (heroes (snd (updateHero e r d))) = Some hero"
proof (cases "Atoi (Vars_id r)")
  case None
  with assms show ?thesis
    by (simp add: updateHero_def)
next
  case (Some other)
  with assms(2) have ne: "other \<noteq> hid"
    by simp
  show ?thesis
  proof (cases "decodeHeroUpdateRequest (body r)")
    case None
    with assms Some show ?thesis
      by (simp add: updateHero_def)
  next
    case req: (Some req)
    show ?thesis
    proof (cases "update_Name req = [] \<or> update_Role req = [] \<or> update_Difficulty req = []")
      case True
      with assms Some req show ?thesis
        by (auto simp: updateHero_def)
    next
      case False
      have "snd (updateHero e r d) =
              snd (update_hero e (update_Name req) (update_Role req) (update_Difficulty req)
                     other d)"
        using Some req False
        by (cases "update_hero e (update_Name req) (update_Role req) (update_Difficulty req)
                     other d")
           (auto simp: updateHero_def split: sum.splits sql_error.splits)
      with update_hero_keeps_row [OF assms(1) ne] show ?thesis
        by simp
    qed
  qed
qed

lemma deleteHero_keeps_row:
  assumes "find (\<lambda>h. ID h = hid) (heroes d) = Some hero" and "Atoi (Vars_id r) \<noteq> Some hid"
  shows "find (\<lambda>h. ID h = hid) (heroes (snd (deleteHero e r d))) = Some hero"
proof (cases "Atoi (Vars_id r)")
  case None
  with assms show ?thesis
    by (simp add: deleteHero_def)
next
  case (Some other)
  with assms(2) have ne: "other \<noteq> hid"
    by simp
  have "snd (deleteHero e r d) = d \<or>
        snd (deleteHero e r d) = d\<lparr>heroes := filter (\<lambda>h. ID h \<noteq> other) (heroes d)\<rparr>"
    using Some by (auto simp: deleteHero_def delete_hero_def)
  then show ?thesis
  proof
    assume "snd (deleteHero e r d) = d"
    with assms(1) show ?thesis by simp
  next
    assume "snd (deleteHero e r d) = d\<lparr>heroes := filter (\<lambda>h. ID h \<noteq> other) (heroes d)\<rparr>"
    with find_id_other_removed [OF assms(1) ne] show ?thesis
      by simp
  qed
qed

lemma serve_call_keeps_row:
  assumes "find (\<lambda>h. ID h = hid) (heroes d) = Some hero" and "\<not> touches hid c"
  shows "find (\<lambda>h. ID h = hid) (heroes (snd (serve_call c d))) = Some hero"
proof (cases c)
  case (GetHeroes e r)
  have "snd (getHeroes e r d) = d"
    by (auto simp: getHeroes_def split: sum.splits)
  with assms GetHeroes show ?thesis by simp
next
  case (GetHeroByID e r)
  have "snd (getHeroByID e r d) = d"
    by (auto simp: getHeroByID_def split: option.splits sum.splits sql_error.splits)
  with assms GetHeroByID show ?thesis by simp
next
  case (CreateHero e r)
  with createHero_keeps_row [OF assms(1)] show ?thesis by simp
next
  case (UpdateHero e r)
  with assms(2) have "Atoi (Vars_id r) \<noteq> Some hid" by simp
  with updateHero_keeps_row [OF assms(1)] UpdateHero show ?thesis by simp
next
  case (DeleteHero e r)
  with assms(2) have "Atoi (Vars_id r) \<noteq> Some hid" by simp
  with deleteHero_keeps_row [OF assms(1)] DeleteHero show ?thesis by simp
qed

lemma serve_calls_keep_row:
  "find (\<lambda>h. ID h = hid) (heroes d) = Some hero \<Longrightarrow> list_all (\<lambda>c. \<not> touches hid c) cs \<Longrightarrow>
     find (\<lambda>h. ID h = hid) (heroes (serve_calls cs d)) = Some hero"
proof (induction cs arbitrary: d)
  case Nil
  then show ?case by simp
next
  case (Cons c cs)
  from Cons.prems have "\<not> touches hid c" and rest: "list_all (\<lambda>c. \<not> touches hid c) cs"
    by simp_all
  with Cons.prems(1) have "find (\<lambda>h. ID h = hid) (heroes (snd (serve_call c d))) = Some hero"
    by (simp add: serve_call_keeps_row)
  from Cons.IH [OF this rest] show ?case
    by simp
qed

text \<open>
  Claim C4. When \<open>createHero\<close> has answered 201 with a hero, then after any further
  calls of the hero handlers, none of them an update or a delete on the identifier of
  that hero, a \<open>getHeroByID\<close> whose path identifier parses to that identifier, with
  the database answering, returns 200 with that very record: identifier, name, role
  and difficulty are those of the created record (and the timestamps too, nothing
  having touched the row). The name, role and difficulty are the non-empty fields
  decoded from the creating request.
\<close>

theorem create_then_get:
  "createHero e r d = (Response StatusCreated (HeroJSON hero), d') \<and>
   list_all (\<lambda>c. \<not> touches (ID hero) c) calls \<and>
   Atoi (Vars_id r') = Some (ID hero) \<and> \<not> query_err e' \<longrightarrow>
     getHeroByID e' r' (serve_calls calls d') =
       (Response StatusOK (HeroJSON hero), serve_calls calls d') \<and>
     (\<exists>m. body r = Some m \<and> Name hero = field m ''name'' \<and> Role hero = field m ''role'' \<and>
          Difficulty hero = field m ''difficulty'') \<and>
     Name hero \<noteq> [] \<and> Role hero \<noteq> [] \<and> Difficulty hero \<noteq> []"
proof (intro impI, elim conjE)
  assume c: "createHero e r d = (Response StatusCreated (HeroJSON hero), d')"
    and quiet: "list_all (\<lambda>c. \<not> touches (ID hero) c) calls"
    and a: "Atoi (Vars_id r') = Some (ID hero)" and q: "\<not> query_err e'"
  from createHero_Created [OF c] obtain m where m: "body r = Some m"
    and ne: "field m ''name'' \<noteq> []" "field m ''role'' \<noteq> []" "field m ''difficulty'' \<noteq> []"
    and fresh: "heroes_id_seq d + 1 \<notin> ID ` set (heroes d)"
    and h: "hero = \<lparr>ID = heroes_id_seq d + 1, Name = field m ''name'',
                     Role = field m ''role'', Difficulty = field m ''difficulty'',
                     CreatedAt = Now e, UpdatedAt = Now e\<rparr>"
    and d': "d' = \<lparr>heroes = heroes d @ [hero], heroes_id_seq = heroes_id_seq d + 1\<rparr>"
    by auto
  have "find (\<lambda>h. ID h = ID hero) (heroes d') = Some hero"
    using fresh h d' by (simp add: find_id_append_new)
  then have "find (\<lambda>h. ID h = ID hero) (heroes (serve_calls calls d')) = Some hero"
    using quiet by (rule serve_calls_keep_row)
  with a q have "getHeroByID e' r' (serve_calls calls d') =
      (Response StatusOK (HeroJSON hero), serve_calls calls d')"
    by (rule getHeroByID_found)
  moreover have "\<exists>m. body r = Some m \<and> Name hero = field m ''name'' \<and>
      Role hero = field m ''role'' \<and> Difficulty hero = field m ''difficulty''"
    using m h by simp
  moreover have "Name hero \<noteq> [] \<and> Role hero \<noteq> [] \<and> Difficulty hero \<noteq> []"
    using ne h by simp
  ultimately show "getHeroByID e' r' (serve_calls calls d') =
       (Response StatusOK (HeroJSON hero), serve_calls calls d') \<and>
     (\<exists>m. body r = Some m \<and> Name hero = field m ''name'' \<and> Role hero = field m ''role'' \<and>
          Difficulty hero = field m ''difficulty'') \<and>
     Name hero \<noteq> [] \<and> Role hero \<noteq> [] \<and> Difficulty hero \<noteq> []"
    by blast
qed

lemma deleteHero_NoContent:
  assumes "deleteHero e r d = (Response StatusNoContent p, d')"
  shows "\<exists>hid. Atoi (Vars_id r) = Some hid \<and> \<not> query_err e \<and> \<not> affected_err e \<and>
           hid \<in> ID ` set (heroes d) \<and>
           d' = d\<lparr>heroes := filter (\<lambda>h. ID h \<noteq> hid) (heroes d)\<rparr>"
proof (cases "Atoi (Vars_id r)")
  case None
  with assms show ?thesis
    by (simp add: deleteHero_def respondWithError_def respondWithJSON_def)
next
  case (Some hid)
  have "filter (\<lambda>h. ID h = hid) (heroes d) \<noteq> [] \<Longrightarrow> hid \<in> ID ` set (heroes d)"
    by (auto simp: filter_empty_conv)
  with Some assms show ?thesis
    unfolding deleteHero_def delete_hero_def respondWithError_def respondWithJSON_def
    by (auto split: if_splits)
qed

lemma cut_removes_distinct:
  assumes "distinct (map ID_mem hs)" and "i < length hs"
  shows "ID_mem (hs ! i) \<notin> ID_mem ` set (take i hs @ drop (i + 1) hs)"
proof -
  have "hs = take i hs @ hs ! i # drop (Suc i) hs"
    using assms(2) by (rule id_take_nth_drop)
  then have "distinct (map ID_mem (take i hs @ hs ! i # drop (Suc i) hs))"
    using assms(1) by simp
  then show ?thesis
    by auto
qed

lemma deleteHero_mem_OK:
  assumes "deleteHero_mem e r st = (Response StatusOK p, st')"
  shows "\<exists>i. index_of (Vars_id r) (heroes_mem st) = Some i \<and>
           st' = st\<lparr>heroes_mem := take i (heroes_mem st) @ drop (i + 1) (heroes_mem st)\<rparr>"
  using assms
  by (cases "index_of (Vars_id r) (heroes_mem st)")
     (simp_all add: deleteHero_mem_def Let_def respondWithError_def respondWithJSON_def)

text \<open>
  Claim C8. When \<open>deleteHero\<close> has succeeded (204) on an identifier, the table holds no
  row with that identifier, and a following \<open>getHeroByID\<close> on the same identifier, with
  the database answering, is answered 404. In the in-memory variant, which has no
  read by identifier, a successful delete (200) leaves no hero with that identifier in
  the slice, the stored identifiers being distinct.
\<close>

theorem delete_then_get_not_found:
  "(deleteHero e r d = (Response StatusNoContent NoBody, d') \<and>
    Atoi (Vars_id r') = Atoi (Vars_id r) \<and> \<not> query_err e' \<longrightarrow>
      getHeroByID e' r' d' =
        (Response StatusNotFound (ErrorResponse ''Hero not found''), d') \<and>
      (\<exists>hid. Atoi (Vars_id r) = Some hid \<and> hid \<in> ID ` set (heroes d) \<and>
             hid \<notin> ID ` set (heroes d'))) \<and>
   (deleteHero_mem e r st =
      (Response StatusOK (SuccessResponse ''Hero deleted successfully''), st') \<and>
    distinct (map ID_mem (heroes_mem st)) \<longrightarrow>
      Vars_id r \<in> ID_mem ` set (heroes_mem st) \<and>
      Vars_id r \<notin> ID_mem ` set (heroes_mem st'))"
proof (intro conjI impI; elim conjE)
  assume del: "deleteHero e r d = (Response StatusNoContent NoBody, d')"
    and same: "Atoi (Vars_id r') = Atoi (Vars_id r)" and q: "\<not> query_err e'"
  from deleteHero_NoContent [OF del] obtain hid where a: "Atoi (Vars_id r) = Some hid"
    and was: "hid \<in> ID ` set (heroes d)"
    and d': "d' = d\<lparr>heroes := filter (\<lambda>h. ID h \<noteq> hid) (heroes d)\<rparr>"
    by blast
  have gone: "hid \<notin> ID ` set (heroes d')"
    using d' by auto
  from same a have "Atoi (Vars_id r') = Some hid" by simp
  then show "getHeroByID e' r' d' =
      (Response StatusNotFound (ErrorResponse ''Hero not found''), d')"
    using q gone by (rule getHeroByID_absent)
  from a was gone
  show "\<exists>hid. Atoi (Vars_id r) = Some hid \<and> hid \<in> ID ` set (heroes d) \<and>
             hid \<notin> ID ` set (heroes d')"
    by blast
next
  assume del: "deleteHero_mem e r st =
      (Response StatusOK (SuccessResponse ''Hero deleted successfully''), st')"
    and dist: "distinct (map ID_mem (heroes_mem st))"
  from deleteHero_mem_OK [OF del] obtain i
    where i: "index_of (Vars_id r) (heroes_mem st) = Some i"
      and st': "st' = st\<lparr>heroes_mem := take i (heroes_mem st) @ drop (i + 1) (heroes_mem st)\<rparr>"
    by blast
  from index_of_Some [OF i] have lt: "i < length (heroes_mem st)"
    and at: "ID_mem (heroes_mem st ! i) = Vars_id r"
    by blast+
  from lt at show "Vars_id r \<in> ID_mem ` set (heroes_mem st)"
    by (metis image_eqI nth_mem)
  from cut_removes_distinct [OF dist lt] at st'
  show "Vars_id r \<notin> ID_mem ` set (heroes_mem st')"
    by simp
qed

theorem create_then_get_witness:
  "createHero
     \<lparr>Now = 50, uuid_New = ''u'', query_err = False, scan_err = False,
      rows_err = False, affected_err = False\<rparr>
     \<lparr>verb = POST, path = [''api'', ''heroes''], Authorization = ''Bearer tok'',
      body = Some [(''Name'', ''Zilong''), (''ROLE'', ''Fighter''),
                   (''difficulty'', ''Mudah'')]\<rparr>
     \<lparr>heroes = [\<lparr>ID = 1, Name = ''Alucard'', Role = ''Fighter'', Difficulty = ''Mudah'',
                  CreatedAt = 7, UpdatedAt = 7\<rparr>],
      heroes_id_seq = 1\<rparr> =
   (Response StatusCreated
      (HeroJSON \<lparr>ID = 2, Name = ''Zilong'', Role = ''Fighter'', Difficulty = ''Mudah'',
                 CreatedAt = 50, UpdatedAt = 50\<rparr>),
    \<lparr>heroes = [\<lparr>ID = 1, Name = ''Alucard'', Role = ''Fighter'', Difficulty = ''Mudah'',
                 CreatedAt = 7, UpdatedAt = 7\<rparr>,
                \<lparr>ID = 2, Name = ''Zilong'', Role = ''Fighter'', Difficulty = ''Mudah'',
                 CreatedAt = 50, UpdatedAt = 50\<rparr>],
     heroes_id_seq = 2\<rparr>) \<and>
   serve_calls
     [CreateHero
        \<lparr>Now = 55, uuid_New = ''u'', query_err = False, scan_err = False,
         rows_err = False, affected_err = False\<rparr>
        \<lparr>verb = POST, path = [''api'', ''heroes''], Authorization = ''Bearer tok'',
         body = Some [(''name'', ''Gusion''), (''role'', ''Assassin''),
                      (''difficulty'', ''Sulit'')]\<rparr>,
      DeleteHero
        \<lparr>Now = 56, uuid_New = ''u'', query_err = False, scan_err = False,
         rows_err = False, affected_err = False\<rparr>
        \<lparr>verb = DELETE, path = [''api'', ''heroes'', ''1''], Authorization = ''Bearer tok'',
         body = None\<rparr>]
     \<lparr>heroes = [\<lparr>ID = 1, Name = ''Alucard'', Role = ''Fighter'', Difficulty = ''Mudah'',
                  CreatedAt = 7, UpdatedAt = 7\<rparr>,
                 \<lparr>ID = 2, Name = ''Zilong'', Role = ''Fighter'', Difficulty = ''Mudah'',
                  CreatedAt = 50, UpdatedAt = 50\<rparr>],
      heroes_id_seq = 2\<rparr> =
   \<lparr>heroes = [\<lparr>ID = 2, Name = ''Zilong'', Role = ''Fighter'', Difficulty = ''Mudah'',
                CreatedAt = 50, UpdatedAt = 50\<rparr>,
               \<lparr>ID = 3, Name = ''Gusion'', Role = ''Assassin'', Difficulty = ''Sulit'',
                CreatedAt = 55, UpdatedAt = 55\<rparr>],
    heroes_id_seq = 3\<rparr> \<and>
   getHeroByID
     \<lparr>Now = 60, uuid_New = ''u'', query_err = False, scan_err = False,
      rows_err = False, affected_err = False\<rparr>
     \<lparr>verb = GET, path = [''api'', ''heroes'', ''2''], Authorization = [], body = None\<rparr>
     \<lparr>heroes = [\<lparr>ID = 2, Name = ''Zilong'', Role = ''Fighter'', Difficulty = ''Mudah'',
                  CreatedAt = 50, UpdatedAt = 50\<rparr>,
                 \<lparr>ID = 3, Name = ''Gusion'', Role = ''Assassin'', Difficulty = ''Sulit'',
                  CreatedAt = 55, UpdatedAt = 55\<rparr>],
      heroes_id_seq = 3\<rparr> =
   (Response StatusOK
      (HeroJSON \<lparr>ID = 2, Name = ''Zilong'', Role = ''Fighter'', Difficulty = ''Mudah'',
                 CreatedAt = 50, UpdatedAt = 50\<rparr>),
    \<lparr>heroes = [\<lparr>ID = 2, Name = ''Zilong'', Role = ''Fighter'', Difficulty = ''Mudah'',
                 CreatedAt = 50, UpdatedAt = 50\<rparr>,
                \<lparr>ID = 3, Name = ''Gusion'', Role = ''Assassin'', Difficulty = ''Sulit'',
                 CreatedAt = 55, UpdatedAt = 55\<rparr>],
     heroes_id_seq = 3\<rparr>)"
proof -
  let ?e = "\<lparr>Now = 50, uuid_New = ''u'', query_err = False, scan_err = False,
             rows_err = False, affected_err = False\<rparr>"
  let ?r = "\<lparr>verb = POST, path = [''api'', ''heroes''], Authorization = ''Bearer tok'',
             body = Some [(''Name'', ''Zilong''), (''ROLE'', ''Fighter''),
                          (''difficulty'', ''Mudah'')]\<rparr>"
  let ?d = "\<lparr>heroes = [\<lparr>ID = 1, Name = ''Alucard'', Role = ''Fighter'',
                          Difficulty = ''Mudah'', CreatedAt = 7, UpdatedAt = 7\<rparr>],
             heroes_id_seq = 1\<rparr>"
  let ?zilong = "\<lparr>ID = 2, Name = ''Zilong'', Role = ''Fighter'', Difficulty = ''Mudah'',
                  CreatedAt = 50, UpdatedAt = 50\<rparr>"
  let ?d' = "\<lparr>heroes = [\<lparr>ID = 1, Name = ''Alucard'', Role = ''Fighter'',
                           Difficulty = ''Mudah'', CreatedAt = 7, UpdatedAt = 7\<rparr>, ?zilong],
              heroes_id_seq = 2\<rparr>"
  let ?calls = "[CreateHero
        \<lparr>Now = 55, uuid_New = ''u'', query_err = False, scan_err = False,
         rows_err = False, affected_err = False\<rparr>
        \<lparr>verb = POST, path = [''api'', ''heroes''], Authorization = ''Bearer tok'',
         body = Some [(''name'', ''Gusion''), (''role'', ''Assassin''),
                      (''difficulty'', ''Sulit'')]\<rparr>,
      DeleteHero
        \<lparr>Now = 56, uuid_New = ''u'', query_err = False, scan_err = False,
         rows_err = False, affected_err = False\<rparr>
        \<lparr>verb = DELETE, path = [''api'', ''heroes'', ''1''], Authorization = ''Bearer tok'',
         body = None\<rparr>]"
  let ?d'' = "\<lparr>heroes = [?zilong,
                          \<lparr>ID = 3, Name = ''Gusion'', Role = ''Assassin'',
                           Difficulty = ''Sulit'', CreatedAt = 55, UpdatedAt = 55\<rparr>],
               heroes_id_seq = 3\<rparr>"
  let ?e' = "\<lparr>Now = 60, uuid_New = ''u'', query_err = False, scan_err = False,
              rows_err = False, affected_err = False\<rparr>"
  let ?r' = "\<lparr>verb = GET, path = [''api'', ''heroes'', ''2''], Authorization = [],
              body = None\<rparr>"
  have name: "field [(''Name'', ''Zilong''), (''ROLE'', ''Fighter''),
                     (''difficulty'', ''Mudah'')] ''name'' = ''Zilong''"
    and role: "field [(''Name'', ''Zilong''), (''ROLE'', ''Fighter''),
                      (''difficulty'', ''Mudah'')] ''role'' = ''Fighter''"
    and difficulty: "field [(''Name'', ''Zilong''), (''ROLE'', ''Fighter''),
                            (''difficulty'', ''Mudah'')] ''difficulty'' = ''Mudah''"
    by (simp_all add: field_def upper_def)
  have created: "createHero ?e ?r ?d = (Response StatusCreated (HeroJSON ?zilong), ?d')"
    by (simp add: createHero_def decodeHeroCreateRequest_def name role difficulty
        insert_hero_def Let_def respondWithJSON_def)
  have one: "Atoi ''1'' = Some 1" and two: "Atoi ''2'' = Some 2"
    by (simp_all add: Atoi_def digit_of_def)
  have quiet: "list_all (\<lambda>c. \<not> touches (ID ?zilong) c) ?calls"
    by (simp add: Vars_id_def one)
  have gusion: "field [(''name'', ''Gusion''), (''role'', ''Assassin''),
                       (''difficulty'', ''Sulit'')] ''name'' = ''Gusion''"
      "field [(''name'', ''Gusion''), (''role'', ''Assassin''),
              (''difficulty'', ''Sulit'')] ''role'' = ''Assassin''"
      "field [(''name'', ''Gusion''), (''role'', ''Assassin''),
              (''difficulty'', ''Sulit'')] ''difficulty'' = ''Sulit''"
    by (simp_all add: field_def upper_def)
  have later: "serve_calls ?calls ?d' = ?d''"
    by (simp add: createHero_def decodeHeroCreateRequest_def gusion insert_hero_def Let_def
        deleteHero_def delete_hero_def Vars_id_def one respondWithJSON_def)
  have path: "Atoi (Vars_id ?r') = Some (ID ?zilong)"
    by (simp add: Vars_id_def two)
  have up: "\<not> query_err ?e'"
    by simp
  note got = create_then_get
    [THEN mp, OF conjI [OF created conjI [OF quiet conjI [OF path up]]], THEN conjunct1]
  from created later got [unfolded later] show ?thesis
    by blast
qed

theorem delete_then_get_not_found_witness:
  "deleteHero
     \<lparr>Now = 50, uuid_New = ''u'', query_err = False, scan_err = False,
      rows_err = False, affected_err = False\<rparr>
     \<lparr>verb = DELETE, path = [''api'', ''heroes'', ''1''], Authorization = ''Bearer tok'',
      body = None\<rparr>
     \<lparr>heroes = [\<lparr>ID = 1, Name = ''Alucard'', Role = ''Fighter'', Difficulty = ''Mudah'',
                  CreatedAt = 7, UpdatedAt = 7\<rparr>],
      heroes_id_seq = 1\<rparr> =
   (Response StatusNoContent NoBody, \<lparr>heroes = [], heroes_id_seq = 1\<rparr>) \<and>
   getHeroByID
     \<lparr>Now = 60, uuid_New = ''u'', query_err = False, scan_err = False,
      rows_err = False, affected_err = False\<rparr>
     \<lparr>verb = GET, path = [''api'', ''heroes'', ''1''], Authorization = [], body = None\<rparr>
     \<lparr>heroes = [], heroes_id_seq = 1\<rparr> =
   (Response StatusNotFound (ErrorResponse ''Hero not found''),
    \<lparr>heroes = [], heroes_id_seq = 1\<rparr>) \<and>
   deleteHero_mem
     \<lparr>Now = 50, uuid_New = ''u'', query_err = False, scan_err = False,
      rows_err = False, affected_err = False\<rparr>
     \<lparr>verb = DELETE, path = [''api'', ''heroes'', ''2''], Authorization = ''Bearer tok'',
      body = None\<rparr>
     initHeroes =
   (Response StatusOK (SuccessResponse ''Hero deleted successfully''),
    \<lparr>heroes_mem =
       [\<lparr>ID_mem = ''1'', Name_mem = ''Alucard'', Role_mem = ''Fighter'', Difficulty_mem = ''Mudah''\<rparr>,
        \<lparr>ID_mem = ''3'', Name_mem = ''Fanny'', Role_mem = ''Assassin'', Difficulty_mem = ''Sulit''\<rparr>],
     nextID = 4\<rparr>) \<and>
   ''2'' \<notin> ID_mem ` set
     [\<lparr>ID_mem = ''1'', Name_mem = ''Alucard'', Role_mem = ''Fighter'', Difficulty_mem = ''Mudah''\<rparr>,
      \<lparr>ID_mem = ''3'', Name_mem = ''Fanny'', Role_mem = ''Assassin'', Difficulty_mem = ''Sulit''\<rparr>]"
proof -
  have deleted: "deleteHero
     \<lparr>Now = 50, uuid_New = ''u'', query_err = False, scan_err = False,
      rows_err = False, affected_err = False\<rparr>
     \<lparr>verb = DELETE, path = [''api'', ''heroes'', ''1''], Authorization = ''Bearer tok'',
      body = None\<rparr>
     \<lparr>heroes = [\<lparr>ID = 1, Name = ''Alucard'', Role = ''Fighter'', Difficulty = ''Mudah'',
                  CreatedAt = 7, UpdatedAt = 7\<rparr>],
      heroes_id_seq = 1\<rparr> =
   (Response StatusNoContent NoBody, \<lparr>heroes = [], heroes_id_seq = 1\<rparr>)"
    by (simp add: deleteHero_def delete_hero_def Vars_id_def Atoi_def digit_of_def)
  have same: "Atoi (Vars_id \<lparr>verb = GET, path = [''api'', ''heroes'', ''1''],
                                  Authorization = [], body = None\<rparr>) =
              Atoi (Vars_id \<lparr>verb = DELETE, path = [''api'', ''heroes'', ''1''],
                                  Authorization = ''Bearer tok'', body = None\<rparr>)"
    by (simp add: Vars_id_def)
  have up: "\<not> query_err \<lparr>Now = 60, uuid_New = ''u'', query_err = False, scan_err = False,
                           rows_err = False, affected_err = False\<rparr>"
    by simp
  have deleted_mem: "deleteHero_mem
     \<lparr>Now = 50, uuid_New = ''u'', query_err = False, scan_err = False,
      rows_err = False, affected_err = False\<rparr>
     \<lparr>verb = DELETE, path = [''api'', ''heroes'', ''2''], Authorization = ''Bearer tok'',
      body = None\<rparr>
     initHeroes =
   (Response StatusOK (SuccessResponse ''Hero deleted successfully''),
    \<lparr>heroes_mem =
       [\<lparr>ID_mem = ''1'', Name_mem = ''Alucard'', Role_mem = ''Fighter'', Difficulty_mem = ''Mudah''\<rparr>,
        \<lparr>ID_mem = ''3'', Name_mem = ''Fanny'', Role_mem = ''Assassin'', Difficulty_mem = ''Sulit''\<rparr>],
     nextID = 4\<rparr>)"
    by (simp add: deleteHero_mem_def Vars_id_def initHeroes_def Let_def respondWithJSON_def)
  have dist: "distinct (map ID_mem (heroes_mem initHeroes))"
    by (simp add: initHeroes_def)
  note t = delete_then_get_not_found
    [where e' = "\<lparr>Now = 60, uuid_New = ''u'', query_err = False, scan_err = False,
                   rows_err = False, affected_err = False\<rparr>"]
  from t [THEN conjunct1, THEN mp, OF conjI [OF deleted conjI [OF same up]]]
    t [THEN conjunct2, THEN mp, OF conjI [OF deleted_mem dist]] deleted deleted_mem
  show ?thesis
    by (simp add: Vars_id_def)
qed

section \<open>Updates that are refused\<close>

lemma map_rows_same:
  "hid \<notin> ID ` set hs \<Longrightarrow> map (\<lambda>h. if ID h = hid then f h else h) hs = hs"
  by (induction hs) auto

lemma find_id_mapped_None:
  "hid \<notin> ID ` set hs \<Longrightarrow>
     find (\<lambda>h. ID h = hid) (map (\<lambda>h. if ID h = hid then f h else h) hs) = None"
  by (simp add: map_rows_same find_id_None)

lemma updateHero_absent:
  assumes "Atoi (Vars_id r) = Some hid" and "body r = Some m"
    and "field m ''name'' \<noteq> []" "field m ''role'' \<noteq> []" "field m ''difficulty'' \<noteq> []"
    and "\<not> query_err e" and "hid \<notin> ID ` set (heroes d)"
  shows "updateHero e r d = (Response StatusNotFound (ErrorResponse ''Hero not found''), d)"
proof -
  let ?f = "\<lambda>h. h\<lparr>Name := field m ''name'', Role := field m ''role'',
                    Difficulty := field m ''difficulty'', UpdatedAt := Now e\<rparr>"
  have rows: "map (\<lambda>h. if ID h = hid then ?f h else h) (heroes d) = heroes d"
    using assms(7) by (rule map_rows_same)
  have none: "find (\<lambda>h. ID h = hid) (heroes d) = None"
    using assms(7) by (simp add: find_id_None)
  have "update_hero e (field m ''name'') (field m ''role'') (field m ''difficulty'') hid d =
          (Inl ErrNoRows, d)"
    using assms(6) by (simp add: update_hero_def Let_def rows none)
  with assms(1-5) show ?thesis
    by (simp add: updateHero_def decodeHeroUpdateRequest_def respondWithError_def
        respondWithJSON_def)
qed

lemma updateHero_empty_field:
  assumes "Atoi (Vars_id r) = Some hid" and "body r = Some m"
    and "field m ''name'' = [] \<or> field m ''role'' = [] \<or> field m ''difficulty'' = []"
  shows "updateHero e r d =
           (Response StatusBadRequest
              (ErrorResponse ''Name, role, and difficulty are required''), d)"
  using assms
  by (auto simp: updateHero_def decodeHeroUpdateRequest_def respondWithError_def
      respondWithJSON_def)

lemma updateHero_mem_empty_field:
  assumes "body r = Some m"
    and "field m ''name'' = [] \<or> field m ''role'' = [] \<or> field m ''difficulty'' = []"
  shows "updateHero_mem e r st =
           (Response StatusBadRequest
              (ErrorResponse ''Name, role, and difficulty are required''), st)"
  using assms
  by (auto simp: updateHero_mem_def decodeHero_mem_def respondWithError_def
      respondWithJSON_def)

text \<open>
  Claim C5 as stated fails: the handlers check the fields before they look the hero
  up, so an update of an identifier that no hero has, with an empty name, is answered
  400 and not 404.
\<close>

theorem update_empty_field_counterexample:
  "''999'' \<notin> ID_mem ` set (heroes_mem initHeroes) \<and>
   updateHero_mem
     \<lparr>Now = 10, uuid_New = ''u'', query_err = False, scan_err = False,
      rows_err = False, affected_err = False\<rparr>
     \<lparr>verb = PUT, path = [''api'', ''heroes'', ''999''], Authorization = ''Bearer tok'',
      body = Some [(''name'', []), (''role'', ''Mage''), (''difficulty'', ''Sulit'')]\<rparr>
     initHeroes =
   (Response StatusBadRequest (ErrorResponse ''Name, role, and difficulty are required''),
    initHeroes) \<and>
   StatusBadRequest \<noteq> StatusNotFound"
  by (simp add: updateHero_mem_def decodeHero_mem_def field_def upper_def initHeroes_def
      respondWithError_def respondWithJSON_def)

lemma updateHero_unparsed_id:
  "Atoi (Vars_id r) = None \<Longrightarrow>
     updateHero e r d = (Response StatusBadRequest (ErrorResponse ''Invalid hero ID''), d)"
  by (simp add: updateHero_def respondWithError_def respondWithJSON_def)

text \<open>
  Claim C5, amended. For an update request whose body decodes: when any of name, role
  and difficulty is empty the answer is 400 and the store is left as it was, for every
  identifier, whether a hero has it or not. When the three fields are non-empty and no
  hero has the identifier, the in-memory variant answers 404; the durable variant
  answers 404 when the identifier of the path parses and the database executes the
  statement, and 400 when the identifier does not parse; the store is left as it was.
\<close>

theorem update_rejects:
  "body r = Some m \<longrightarrow>
     (Atoi (Vars_id r) = None \<longrightarrow>
        updateHero e r d =
          (Response StatusBadRequest (ErrorResponse ''Invalid hero ID''), d)) \<and>
     (field m ''name'' = [] \<or> field m ''role'' = [] \<or> field m ''difficulty'' = [] \<longrightarrow>
        (\<exists>msg. updateHero e r d = (Response StatusBadRequest (ErrorResponse msg), d)) \<and>
        (Atoi (Vars_id r) = Some hid \<longrightarrow>
           updateHero e r d =
             (Response StatusBadRequest
                (ErrorResponse ''Name, role, and difficulty are required''), d)) \<and>
        updateHero_mem e r st =
          (Response StatusBadRequest
             (ErrorResponse ''Name, role, and difficulty are required''), st)) \<and>
     (field m ''name'' \<noteq> [] \<and> field m ''role'' \<noteq> [] \<and> field m ''difficulty'' \<noteq> [] \<longrightarrow>
        (Atoi (Vars_id r) = Some hid \<and> hid \<notin> ID ` set (heroes d) \<and> \<not> query_err e \<longrightarrow>
           updateHero e r d =
             (Response StatusNotFound (ErrorResponse ''Hero not found''), d)) \<and>
        (Vars_id r \<notin> ID_mem ` set (heroes_mem st) \<longrightarrow>
           updateHero_mem e r st =
             (Response StatusNotFound (ErrorResponse ''Hero not found''), st)))"
proof (intro impI conjI; (elim conjE)?)
  assume b: "body r = Some m"
  {
    assume "Atoi (Vars_id r) = None"
    then show "updateHero e r d =
          (Response StatusBadRequest (ErrorResponse ''Invalid hero ID''), d)"
      by (rule updateHero_unparsed_id)
  }
  {
    assume f: "field m ''name'' = [] \<or> field m ''role'' = [] \<or> field m ''difficulty'' = []"
    show "\<exists>msg. updateHero e r d = (Response StatusBadRequest (ErrorResponse msg), d)"
    proof (cases "Atoi (Vars_id r)")
      case None
      then show ?thesis
        using updateHero_unparsed_id by blast
    next
      case (Some parsed)
      from updateHero_empty_field [OF Some b f] show ?thesis
        by blast
    qed
  }
  {
    assume a: "Atoi (Vars_id r) = Some hid"
      and f: "field m ''name'' = [] \<or> field m ''role'' = [] \<or> field m ''difficulty'' = []"
    from a b f show "updateHero e r d =
             (Response StatusBadRequest
                (ErrorResponse ''Name, role, and difficulty are required''), d)"
      by (rule updateHero_empty_field)
  }
  {
    assume f: "field m ''name'' = [] \<or> field m ''role'' = [] \<or> field m ''difficulty'' = []"
    from b f show "updateHero_mem e r st =
          (Response StatusBadRequest
             (ErrorResponse ''Name, role, and difficulty are required''), st)"
      by (rule updateHero_mem_empty_field)
  }
  {
    assume a: "Atoi (Vars_id r) = Some hid" and n: "hid \<notin> ID ` set (heroes d)"
      and q: "\<not> query_err e"
      and f: "field m ''name'' \<noteq> []" "field m ''role'' \<noteq> []" "field m ''difficulty'' \<noteq> []"
    from a b f q n show "updateHero e r d =
             (Response StatusNotFound (ErrorResponse ''Hero not found''), d)"
      by (rule updateHero_absent)
  }
  {
    assume n: "Vars_id r \<notin> ID_mem ` set (heroes_mem st)"
      and f: "field m ''name'' \<noteq> []" "field m ''role'' \<noteq> []" "field m ''difficulty'' \<noteq> []"
    from n have "index_of (Vars_id r) (heroes_mem st) = None"
      by (simp add: index_of_None_iff)
    from updateHero_mem_absent [OF this, of e] b f
    show "updateHero_mem e r st =
             (Response StatusNotFound (ErrorResponse ''Hero not found''), st)"
      by simp
  }
qed

theorem update_rejects_witness:
  "updateHero
     \<lparr>Now = 10, uuid_New = ''u'', query_err = False, scan_err = False,
      rows_err = False, affected_err = False\<rparr>
     \<lparr>verb = PUT, path = [''api'', ''heroes'', ''1''], Authorization = ''Bearer tok'',
      body = Some [(''name'', ''Alucard''), (''role'', []), (''difficulty'', ''Sulit'')]\<rparr>
     \<lparr>heroes = [\<lparr>ID = 1, Name = ''Alucard'', Role = ''Fighter'', Difficulty = ''Mudah'',
                  CreatedAt = 7, UpdatedAt = 7\<rparr>],
      heroes_id_seq = 1\<rparr> =
   (Response StatusBadRequest (ErrorResponse ''Name, role, and difficulty are required''),
    \<lparr>heroes = [\<lparr>ID = 1, Name = ''Alucard'', Role = ''Fighter'', Difficulty = ''Mudah'',
                 CreatedAt = 7, UpdatedAt = 7\<rparr>],
     heroes_id_seq = 1\<rparr>) \<and>
   updateHero_mem
     \<lparr>Now = 10, uuid_New = ''u'', query_err = False, scan_err = False,
      rows_err = False, affected_err = False\<rparr>
     \<lparr>verb = PUT, path = [''api'', ''heroes'', ''1''], Authorization = ''Bearer tok'',
      body = Some [(''name'', ''Alucard''), (''role'', []), (''difficulty'', ''Sulit'')]\<rparr>
     initHeroes =
   (Response StatusBadRequest (ErrorResponse ''Name, role, and difficulty are required''),
    initHeroes) \<and>
   updateHero
     \<lparr>Now = 10, uuid_New = ''u'', query_err = False, scan_err = False,
      rows_err = False, affected_err = False\<rparr>
     \<lparr>verb = PUT, path = [''api'', ''heroes'', ''999999''], Authorization = ''Bearer tok'',
      body = Some [(''NAME'', ''Gusion''), (''Role'', ''Assassin''),
                   (''Difficulty'', ''Sulit'')]\<rparr>
     \<lparr>heroes = [\<lparr>ID = 1, Name = ''Alucard'', Role = ''Fighter'', Difficulty = ''Mudah'',
                  CreatedAt = 7, UpdatedAt = 7\<rparr>],
      heroes_id_seq = 1\<rparr> =
   (Response StatusNotFound (ErrorResponse ''Hero not found''),
    \<lparr>heroes = [\<lparr>ID = 1, Name = ''Alucard'', Role = ''Fighter'', Difficulty = ''Mudah'',
                 CreatedAt = 7, UpdatedAt = 7\<rparr>],
     heroes_id_seq = 1\<rparr>) \<and>
   updateHero_mem
     \<lparr>Now = 10, uuid_New = ''u'', query_err = False, scan_err = False,
      rows_err = False, affected_err = False\<rparr>
     \<lparr>verb = PUT, path = [''api'', ''heroes'', ''999999''], Authorization = ''Bearer tok'',
      body = Some [(''NAME'', ''Gusion''), (''Role'', ''Assassin''),
                   (''Difficulty'', ''Sulit'')]\<rparr>
     initHeroes =
   (Response StatusNotFound (ErrorResponse ''Hero not found''), initHeroes) \<and>
   updateHero
     \<lparr>Now = 10, uuid_New = ''u'', query_err = False, scan_err = False,
      rows_err = False, affected_err = False\<rparr>
     \<lparr>verb = PUT, path = [''api'', ''heroes'', ''abc''], Authorization = ''Bearer tok'',
      body = Some [(''NAME'', ''Gusion''), (''Role'', ''Assassin''),
                   (''Difficulty'', ''Sulit'')]\<rparr>
     \<lparr>heroes = [\<lparr>ID = 1, Name = ''Alucard'', Role = ''Fighter'', Difficulty = ''Mudah'',
                  CreatedAt = 7, UpdatedAt = 7\<rparr>],
      heroes_id_seq = 1\<rparr> =
   (Response StatusBadRequest (ErrorResponse ''Invalid hero ID''),
    \<lparr>heroes = [\<lparr>ID = 1, Name = ''Alucard'', Role = ''Fighter'', Difficulty = ''Mudah'',
                 CreatedAt = 7, UpdatedAt = 7\<rparr>],
     heroes_id_seq = 1\<rparr>)"
proof -
  let ?e = "\<lparr>Now = 10, uuid_New = ''u'', query_err = False, scan_err = False,
             rows_err = False, affected_err = False\<rparr>"
  let ?d = "\<lparr>heroes = [\<lparr>ID = 1, Name = ''Alucard'', Role = ''Fighter'',
                          Difficulty = ''Mudah'', CreatedAt = 7, UpdatedAt = 7\<rparr>],
             heroes_id_seq = 1\<rparr>"
  let ?m1 = "[(''name'', ''Alucard''), (''role'', []), (''difficulty'', ''Sulit'')]"
  let ?m2 = "[(''NAME'', ''Gusion''), (''Role'', ''Assassin''), (''Difficulty'', ''Sulit'')]"
  let ?r1 = "\<lparr>verb = PUT, path = [''api'', ''heroes'', ''1''], Authorization = ''Bearer tok'',
              body = Some ?m1\<rparr>"
  let ?r2 = "\<lparr>verb = PUT, path = [''api'', ''heroes'', ''999999''],
              Authorization = ''Bearer tok'', body = Some ?m2\<rparr>"
  let ?r3 = "\<lparr>verb = PUT, path = [''api'', ''heroes'', ''abc''],
              Authorization = ''Bearer tok'', body = Some ?m2\<rparr>"
  have b1: "body ?r1 = Some ?m1" and b2: "body ?r2 = Some ?m2" and b3: "body ?r3 = Some ?m2"
    by simp_all
  have empty: "field ?m1 ''name'' = [] \<or> field ?m1 ''role'' = [] \<or>
               field ?m1 ''difficulty'' = []"
    by (simp add: field_def upper_def)
  have full: "field ?m2 ''name'' \<noteq> [] \<and> field ?m2 ''role'' \<noteq> [] \<and>
              field ?m2 ''difficulty'' \<noteq> []"
    by (simp add: field_def upper_def)
  have one: "Atoi (Vars_id ?r1) = Some 1"
    by (simp add: Vars_id_def Atoi_def digit_of_def)
  have big: "Atoi (Vars_id ?r2) = Some 999999 \<and> 999999 \<notin> ID ` set (heroes ?d) \<and>
             \<not> query_err ?e"
    by (simp add: Vars_id_def Atoi_def digit_of_def)
  have unknown: "Vars_id ?r2 \<notin> ID_mem ` set (heroes_mem initHeroes)"
    by (simp add: Vars_id_def initHeroes_def)
  have abc: "Atoi (Vars_id ?r3) = None"
    by (simp add: Vars_id_def Atoi_def digit_of_def)
  note refused = update_rejects
    [where r = ?r1 and m = ?m1 and hid = 1 and e = ?e and d = ?d and st = initHeroes,
     THEN mp, OF b1, THEN conjunct2, THEN conjunct1, THEN mp, OF empty, THEN conjunct2]
  note missing = update_rejects
    [where r = ?r2 and m = ?m2 and hid = 999999 and e = ?e and d = ?d and st = initHeroes,
     THEN mp, OF b2, THEN conjunct2, THEN conjunct2, THEN mp, OF full]
  note unparsed = update_rejects
    [where r = ?r3 and m = ?m2 and hid = 0 and e = ?e and d = ?d and st = initHeroes,
     THEN mp, OF b3, THEN conjunct1, THEN mp, OF abc]
  from refused [THEN conjunct1, THEN mp, OF one] refused [THEN conjunct2]
    missing [THEN conjunct1, THEN mp, OF big] missing [THEN conjunct2, THEN mp, OF unknown]
    unparsed
  show ?thesis
    by blast
qed

section \<open>Creation\<close>

lemma next_id_unused:
  assumes "ids_below_counter st"
  shows "Itoa (nextID st) \<notin> ID_mem ` set (heroes_mem st)"
proof
  assume "Itoa (nextID st) \<in> ID_mem ` set (heroes_mem st)"
  then obtain h where h: "h \<in> set (heroes_mem st)" and i: "ID_mem h = Itoa (nextID st)"
    by auto
  from assms have r: "- (2 ^ 63) \<le> nextID st" "nextID st < 2 ^ 63"
    and a: "list_all (\<lambda>h. case Atoi (ID_mem h) of None \<Rightarrow> False | Some k \<Rightarrow> k < nextID st)
              (heroes_mem st)"
    by (simp_all add: ids_below_counter_def)
  from a h have "case Atoi (ID_mem h) of None \<Rightarrow> False | Some k \<Rightarrow> k < nextID st"
    by (simp add: list_all_iff)
  moreover have "Atoi (ID_mem h) = Some (nextID st)"
    using i Atoi_Itoa [OF r] by simp
  ultimately show False
    by simp
qed








section \<open>Updates that succeed\<close>

lemma insort_key_map_same:
  "(\<And>x. ID (f x) = ID x) \<Longrightarrow>
     insort_key ID (f x) (map f ys) = map f (insort_key ID x ys)"
  by (induction ys) simp_all

lemma sort_key_map_same:
  "(\<And>x. ID (f x) = ID x) \<Longrightarrow> sort_key ID (map f xs) = map f (sort_key ID xs)"
  by (induction xs) (simp_all add: insort_key_map_same)

lemma find_id_Some: "find (\<lambda>h. ID h = hid) hs = Some h \<Longrightarrow> ID h = hid \<and> h \<in> set hs"
  by (induction hs) (auto split: if_splits)

lemma updateHero_OK:
  assumes "updateHero e r d = (Response StatusOK (HeroJSON hero), d')"
  shows "\<exists>hid m. Atoi (Vars_id r) = Some hid \<and> body r = Some m \<and> \<not> query_err e \<and>
           d' = d\<lparr>heroes :=
                   map (\<lambda>h. if ID h = hid
                             then h\<lparr>Name := field m ''name'', Role := field m ''role'',
                                    Difficulty := field m ''difficulty'', UpdatedAt := Now e\<rparr>
                             else h) (heroes d)\<rparr> \<and>
           find (\<lambda>h. ID h = hid) (heroes d') = Some hero"
proof -
  from assms obtain hid where a: "Atoi (Vars_id r) = Some hid"
    by (cases "Atoi (Vars_id r)")
       (simp_all add: updateHero_def respondWithError_def respondWithJSON_def)
  from assms a obtain m where b: "body r = Some m"
    by (cases "body r")
       (simp_all add: updateHero_def decodeHeroUpdateRequest_def respondWithError_def
          respondWithJSON_def)
  from assms a b have q: "\<not> query_err e"
    by (auto simp: updateHero_def decodeHeroUpdateRequest_def update_hero_def
        respondWithError_def respondWithJSON_def split: if_splits)
  let ?d' = "d\<lparr>heroes :=
                   map (\<lambda>h. if ID h = hid
                             then h\<lparr>Name := field m ''name'', Role := field m ''role'',
                                    Difficulty := field m ''difficulty'', UpdatedAt := Now e\<rparr>
                             else h) (heroes d)\<rparr>"
  have u: "update_hero e (field m ''name'') (field m ''role'') (field m ''difficulty'') hid d =
             (case find (\<lambda>h. ID h = hid) (heroes ?d') of
                None \<Rightarrow> (Inl ErrNoRows, ?d')
              | Some h \<Rightarrow> (Inr h, ?d'))"
    using q by (simp add: update_hero_def Let_def)
  from assms a b have "d' = ?d' \<and> find (\<lambda>h. ID h = hid) (heroes ?d') = Some hero"
    by (cases "find (\<lambda>h. ID h = hid) (heroes ?d')")
       (auto simp: updateHero_def decodeHeroUpdateRequest_def u respondWithError_def
          respondWithJSON_def split: if_splits)
  with a b q show ?thesis
    by blast
qed

lemma updateHero_mem_OK:
  assumes "updateHero_mem e r st = (Response StatusOK (HeroJSON hero), st')"
  shows "\<exists>i. index_of (Vars_id r) (heroes_mem st) = Some i \<and> ID_mem hero = Vars_id r \<and>
           st' = st\<lparr>heroes_mem := (heroes_mem st)[i := hero]\<rparr>"
  using assms
  unfolding updateHero_mem_def decodeHero_mem_def Let_def respondWithError_def
    respondWithJSON_def
  by (auto split: option.splits if_splits)

text \<open>
  Claim C10. A successful update (200) changes the heroes with the identifier of the
  request and nothing else. In the durable variant the rows with that identifier get
  the name, role and difficulty of the answer and the current time as \<open>updated_at\<close>;
  their identifier and creation time, every other row, the number of rows, the
  sequence and the order of the identifiers (in the table and in the listing by
  identifier) are as before. In the in-memory variant the first hero with the
  identifier is replaced, in place, by the hero of the request under the same
  identifier; every other position, the length, the identifiers in order and the
  counter are as before.
\<close>

theorem update_changes_one_hero:
  "(updateHero e r d = (Response StatusOK (HeroJSON hero), d') \<longrightarrow>
      Atoi (Vars_id r) = Some (ID hero) \<and>
      heroes_id_seq d' = heroes_id_seq d \<and>
      length (heroes d') = length (heroes d) \<and>
      map ID (heroes d') = map ID (heroes d) \<and>
      map CreatedAt (heroes d') = map CreatedAt (heroes d) \<and>
      (\<forall>i < length (heroes d).
         heroes d' ! i =
           (if ID (heroes d ! i) = ID hero
            then (heroes d ! i)\<lparr>Name := Name hero, Role := Role hero,
                                  Difficulty := Difficulty hero, UpdatedAt := Now e\<rparr>
            else heroes d ! i)) \<and>
      map ID (sort_key ID (heroes d')) = map ID (sort_key ID (heroes d))) \<and>
   (updateHero_mem e r st = (Response StatusOK (HeroJSON hero_mem), st') \<longrightarrow>
      ID_mem hero_mem = Vars_id r \<and>
      nextID st' = nextID st \<and>
      length (heroes_mem st') = length (heroes_mem st) \<and>
      map ID_mem (heroes_mem st') = map ID_mem (heroes_mem st) \<and>
      (\<exists>i < length (heroes_mem st).
         ID_mem (heroes_mem st ! i) = Vars_id r \<and>
         heroes_mem st' = (heroes_mem st)[i := hero_mem] \<and>
         (\<forall>j < length (heroes_mem st). j \<noteq> i \<longrightarrow>
            heroes_mem st' ! j = heroes_mem st ! j)))"
proof (intro conjI impI)
  assume u: "updateHero e r d = (Response StatusOK (HeroJSON hero), d')"
  from updateHero_OK [OF u] obtain hid m where a: "Atoi (Vars_id r) = Some hid"
    and d': "d' = d\<lparr>heroes :=
                   map (\<lambda>h. if ID h = hid
                             then h\<lparr>Name := field m ''name'', Role := field m ''role'',
                                    Difficulty := field m ''difficulty'', UpdatedAt := Now e\<rparr>
                             else h) (heroes d)\<rparr>"
    and f: "find (\<lambda>h. ID h = hid) (heroes d') = Some hero"
    by blast
  define set_row :: "Hero \<Rightarrow> Hero" where "set_row = (\<lambda>h. if ID h = hid
                             then h\<lparr>Name := field m ''name'', Role := field m ''role'',
                                    Difficulty := field m ''difficulty'', UpdatedAt := Now e\<rparr>
                             else h)"
  have rows: "heroes d' = map set_row (heroes d)"
    using d' by (simp add: set_row_def)
  have same_id: "ID (set_row h) = ID h" for h
    by (simp add: set_row_def)
  have same_created: "CreatedAt (set_row h) = CreatedAt h" for h
    by (simp add: set_row_def)
  from find_id_Some [OF f] have hid: "ID hero = hid" and mem: "hero \<in> set (heroes d')"
    by blast+
  from mem rows obtain h0 where h0: "hero = set_row h0"
    by auto
  with hid same_id [of h0] have "ID h0 = hid"
    by simp
  with h0 have fields: "Name hero = field m ''name''" "Role hero = field m ''role''"
    "Difficulty hero = field m ''difficulty''"
    by (simp_all add: set_row_def)
  show "Atoi (Vars_id r) = Some (ID hero)"
    using a hid by simp
  show "heroes_id_seq d' = heroes_id_seq d"
    using d' by simp
  show "length (heroes d') = length (heroes d)"
    using rows by simp
  show "map ID (heroes d') = map ID (heroes d)"
    using rows same_id by simp
  show "map CreatedAt (heroes d') = map CreatedAt (heroes d)"
    using rows same_created by simp
  show "\<forall>i < length (heroes d).
         heroes d' ! i =
           (if ID (heroes d ! i) = ID hero
            then (heroes d ! i)\<lparr>Name := Name hero, Role := Role hero,
                                  Difficulty := Difficulty hero, UpdatedAt := Now e\<rparr>
            else heroes d ! i)"
    using rows hid fields by (simp add: set_row_def)
  have "sort_key ID (heroes d') = map set_row (sort_key ID (heroes d))"
    unfolding rows using same_id by (rule sort_key_map_same)
  then show "map ID (sort_key ID (heroes d')) = map ID (sort_key ID (heroes d))"
    using same_id by simp
next
  assume u: "updateHero_mem e r st = (Response StatusOK (HeroJSON hero_mem), st')"
  from updateHero_mem_OK [OF u] obtain i
    where i: "index_of (Vars_id r) (heroes_mem st) = Some i"
      and h: "ID_mem hero_mem = Vars_id r"
      and st': "st' = st\<lparr>heroes_mem := (heroes_mem st)[i := hero_mem]\<rparr>"
    by blast
  from index_of_Some [OF i] have lt: "i < length (heroes_mem st)"
    and at: "ID_mem (heroes_mem st ! i) = Vars_id r"
    by blast+
  show "ID_mem hero_mem = Vars_id r"
    by (rule h)
  show "nextID st' = nextID st"
    using st' by simp
  show "length (heroes_mem st') = length (heroes_mem st)"
    using st' by simp
  have "map ID_mem ((heroes_mem st)[i := hero_mem]) =
          (map ID_mem (heroes_mem st))[i := ID_mem (heroes_mem st ! i)]"
    using h at by (simp add: map_update)
  also have "\<dots> = map ID_mem (heroes_mem st)"
    using lt by (metis length_map list_update_id nth_map)
  finally show "map ID_mem (heroes_mem st') = map ID_mem (heroes_mem st)"
    using st' by simp
  show "\<exists>i < length (heroes_mem st).
         ID_mem (heroes_mem st ! i) = Vars_id r \<and>
         heroes_mem st' = (heroes_mem st)[i := hero_mem] \<and>
         (\<forall>j < length (heroes_mem st). j \<noteq> i \<longrightarrow>
            heroes_mem st' ! j = heroes_mem st ! j)"
    using lt at st' by (intro exI [of _ i]) simp
qed

theorem update_changes_one_hero_witness:
  "updateHero
     \<lparr>Now = 80, uuid_New = ''u'', query_err = False, scan_err = False,
      rows_err = False, affected_err = False\<rparr>
     \<lparr>verb = PUT, path = [''api'', ''heroes'', ''2''], Authorization = ''Bearer tok'',
      body = Some [(''name'', ''Miya''), (''role'', ''Marksman''),
                   (''difficulty'', ''Sedang'')]\<rparr>
     \<lparr>heroes = [\<lparr>ID = 1, Name = ''Alucard'', Role = ''Fighter'', Difficulty = ''Mudah'',
                  CreatedAt = 7, UpdatedAt = 7\<rparr>,
                 \<lparr>ID = 2, Name = ''Miya'', Role = ''Marksman'', Difficulty = ''Mudah'',
                  CreatedAt = 8, UpdatedAt = 8\<rparr>],
      heroes_id_seq = 2\<rparr> =
   (Response StatusOK
      (HeroJSON \<lparr>ID = 2, Name = ''Miya'', Role = ''Marksman'', Difficulty = ''Sedang'',
                 CreatedAt = 8, UpdatedAt = 80\<rparr>),
    \<lparr>heroes = [\<lparr>ID = 1, Name = ''Alucard'', Role = ''Fighter'', Difficulty = ''Mudah'',
                 CreatedAt = 7, UpdatedAt = 7\<rparr>,
                \<lparr>ID = 2, Name = ''Miya'', Role = ''Marksman'', Difficulty = ''Sedang'',
                 CreatedAt = 8, UpdatedAt = 80\<rparr>],
     heroes_id_seq = 2\<rparr>) \<and>
   map ID (heroes
     \<lparr>heroes = [\<lparr>ID = 1, Name = ''Alucard'', Role = ''Fighter'', Difficulty = ''Mudah'',
                  CreatedAt = 7, UpdatedAt = 7\<rparr>,
                 \<lparr>ID = 2, Name = ''Miya'', Role = ''Marksman'', Difficulty = ''Sedang'',
                  CreatedAt = 8, UpdatedAt = 80\<rparr>],
      heroes_id_seq = 2\<rparr>) =
   map ID (heroes
     \<lparr>heroes = [\<lparr>ID = 1, Name = ''Alucard'', Role = ''Fighter'', Difficulty = ''Mudah'',
                  CreatedAt = 7, UpdatedAt = 7\<rparr>,
                 \<lparr>ID = 2, Name = ''Miya'', Role = ''Marksman'', Difficulty = ''Mudah'',
                  CreatedAt = 8, UpdatedAt = 8\<rparr>],
      heroes_id_seq = 2\<rparr>) \<and>
   updateHero_mem
     \<lparr>Now = 80, uuid_New = ''u'', query_err = False, scan_err = False,
      rows_err = False, affected_err = False\<rparr>
     \<lparr>verb = PUT, path = [''api'', ''heroes'', ''2''], Authorization = ''Bearer tok'',
      body = Some [(''id'', ''77''), (''name'', ''Miya''), (''role'', ''Marksman''),
                   (''difficulty'', ''Sedang'')]\<rparr>
     initHeroes =
   (Response StatusOK
      (HeroJSON \<lparr>ID_mem = ''2'', Name_mem = ''Miya'', Role_mem = ''Marksman'',
                 Difficulty_mem = ''Sedang''\<rparr>),
    \<lparr>heroes_mem =
       [\<lparr>ID_mem = ''1'', Name_mem = ''Alucard'', Role_mem = ''Fighter'', Difficulty_mem = ''Mudah''\<rparr>,
        \<lparr>ID_mem = ''2'', Name_mem = ''Miya'', Role_mem = ''Marksman'', Difficulty_mem = ''Sedang''\<rparr>,
        \<lparr>ID_mem = ''3'', Name_mem = ''Fanny'', Role_mem = ''Assassin'', Difficulty_mem = ''Sulit''\<rparr>],
     nextID = 4\<rparr>) \<and>
   map ID_mem (heroes_mem
     \<lparr>heroes_mem =
       [\<lparr>ID_mem = ''1'', Name_mem = ''Alucard'', Role_mem = ''Fighter'', Difficulty_mem = ''Mudah''\<rparr>,
        \<lparr>ID_mem = ''2'', Name_mem = ''Miya'', Role_mem = ''Marksman'', Difficulty_mem = ''Sedang''\<rparr>,
        \<lparr>ID_mem = ''3'', Name_mem = ''Fanny'', Role_mem = ''Assassin'', Difficulty_mem = ''Sulit''\<rparr>],
      nextID = 4\<rparr>) =
   map ID_mem (heroes_mem initHeroes)"
proof -
  have upd: "updateHero
     \<lparr>Now = 80, uuid_New = ''u'', query_err = False, scan_err = False,
      rows_err = False, affected_err = False\<rparr>
     \<lparr>verb = PUT, path = [''api'', ''heroes'', ''2''], Authorization = ''Bearer tok'',
      body = Some [(''name'', ''Miya''), (''role'', ''Marksman''),
                   (''difficulty'', ''Sedang'')]\<rparr>
     \<lparr>heroes = [\<lparr>ID = 1, Name = ''Alucard'', Role = ''Fighter'', Difficulty = ''Mudah'',
                  CreatedAt = 7, UpdatedAt = 7\<rparr>,
                 \<lparr>ID = 2, Name = ''Miya'', Role = ''Marksman'', Difficulty = ''Mudah'',
                  CreatedAt = 8, UpdatedAt = 8\<rparr>],
      heroes_id_seq = 2\<rparr> =
   (Response StatusOK
      (HeroJSON \<lparr>ID = 2, Name = ''Miya'', Role = ''Marksman'', Difficulty = ''Sedang'',
                 CreatedAt = 8, UpdatedAt = 80\<rparr>),
    \<lparr>heroes = [\<lparr>ID = 1, Name = ''Alucard'', Role = ''Fighter'', Difficulty = ''Mudah'',
                 CreatedAt = 7, UpdatedAt = 7\<rparr>,
                \<lparr>ID = 2, Name = ''Miya'', Role = ''Marksman'', Difficulty = ''Sedang'',
                 CreatedAt = 8, UpdatedAt = 80\<rparr>],
     heroes_id_seq = 2\<rparr>)"
    by (simp add: updateHero_def decodeHeroUpdateRequest_def field_def upper_def update_hero_def
        Let_def Vars_id_def Atoi_def digit_of_def respondWithJSON_def)
  have upd_mem: "updateHero_mem
     \<lparr>Now = 80, uuid_New = ''u'', query_err = False, scan_err = False,
      rows_err = False, affected_err = False\<rparr>
     \<lparr>verb = PUT, path = [''api'', ''heroes'', ''2''], Authorization = ''Bearer tok'',
      body = Some [(''id'', ''77''), (''name'', ''Miya''), (''role'', ''Marksman''),
                   (''difficulty'', ''Sedang'')]\<rparr>
     initHeroes =
   (Response StatusOK
      (HeroJSON \<lparr>ID_mem = ''2'', Name_mem = ''Miya'', Role_mem = ''Marksman'',
                 Difficulty_mem = ''Sedang''\<rparr>),
    \<lparr>heroes_mem =
       [\<lparr>ID_mem = ''1'', Name_mem = ''Alucard'', Role_mem = ''Fighter'', Difficulty_mem = ''Mudah''\<rparr>,
        \<lparr>ID_mem = ''2'', Name_mem = ''Miya'', Role_mem = ''Marksman'', Difficulty_mem = ''Sedang''\<rparr>,
        \<lparr>ID_mem = ''3'', Name_mem = ''Fanny'', Role_mem = ''Assassin'', Difficulty_mem = ''Sulit''\<rparr>],
     nextID = 4\<rparr>)"
    by (simp add: updateHero_mem_def decodeHero_mem_def field_def upper_def Let_def Vars_id_def
        initHeroes_def respondWithJSON_def)
  note durable = update_changes_one_hero [THEN conjunct1, THEN mp, OF upd]
  note volatile = update_changes_one_hero [THEN conjunct2, THEN mp, OF upd_mem]
  from upd upd_mem
    durable [THEN conjunct2, THEN conjunct2, THEN conjunct2, THEN conjunct1]
    volatile [THEN conjunct2, THEN conjunct2, THEN conjunct2, THEN conjunct1]
  show ?thesis
    by blast
qed

section \<open>The invariant of the slice\<close>

lemma ids_below_counter_iff:
  "ids_below_counter st \<longleftrightarrow>
     - (2 ^ 63) \<le> nextID st \<and> nextID st < 2 ^ 63 \<and>
     (\<forall>h \<in> set (heroes_mem st). \<exists>k. Atoi (ID_mem h) = Some k \<and> k < nextID st)"
  unfolding ids_below_counter_def list_all_iff
  by (auto split: option.splits)

lemma ids_below_counter_initHeroes: "ids_below_counter initHeroes"
  by (simp add: ids_below_counter_def initHeroes_def Atoi_def digit_of_def)

lemma distinct_ids_initHeroes: "distinct (map ID_mem (heroes_mem initHeroes))"
  by (simp add: initHeroes_def)

lemma ids_below_counter_numeric:
  assumes "ids_below_counter st"
  shows "list_all (\<lambda>h. numeric_string (ID_mem h)) (heroes_mem st)"
  using assms unfolding ids_below_counter_iff list_all_iff
  by (blast intro: Atoi_Some_numeric)

lemma createHero_mem_cases:
  assumes "createHero_mem e r st = (resp, st')"
  shows "st' = st \<or>
         (\<exists>hero. ID_mem hero = Itoa (nextID st) \<and>
            st' = st\<lparr>nextID := increment (nextID st),
                      heroes_mem := heroes_mem st @ [hero]\<rparr>)"
proof (cases "decodeHero_mem (body r)")
  case None
  with assms show ?thesis
    by (simp add: createHero_mem_def)
next
  case (Some newHero)
  show ?thesis
  proof (cases "Name_mem newHero = [] \<or> Role_mem newHero = [] \<or> Difficulty_mem newHero = []")
    case True
    with assms Some show ?thesis
      by (auto simp: createHero_mem_def)
  next
    case False
    with assms Some
    have "st' = st\<lparr>nextID := increment (nextID st),
                    heroes_mem := heroes_mem st @ [newHero\<lparr>ID_mem := Itoa (nextID st)\<rparr>]\<rparr>"
      by (auto simp: createHero_mem_def Let_def)
    moreover have "ID_mem (newHero\<lparr>ID_mem := Itoa (nextID st)\<rparr>) = Itoa (nextID st)"
      by simp
    ultimately show ?thesis
      by blast
  qed
qed

lemma updateHero_mem_cases:
  assumes "updateHero_mem e r st = (resp, st')"
  shows "st' = st \<or>
         (\<exists>i hero. index_of (Vars_id r) (heroes_mem st) = Some i \<and>
            ID_mem hero = Vars_id r \<and>
            st' = st\<lparr>heroes_mem := (heroes_mem st)[i := hero]\<rparr>)"
proof (cases "decodeHero_mem (body r)")
  case None
  with assms show ?thesis
    by (simp add: updateHero_mem_def)
next
  case (Some updatedHero)
  show ?thesis
  proof (cases "Name_mem updatedHero = [] \<or> Role_mem updatedHero = [] \<or>
                Difficulty_mem updatedHero = []")
    case True
    with assms Some show ?thesis
      by (auto simp: updateHero_mem_def)
  next
    case False
    show ?thesis
    proof (cases "index_of (Vars_id r) (heroes_mem st)")
      case None
      with assms Some False show ?thesis
        by (auto simp: updateHero_mem_def)
    next
      case (Some i)
      with assms \<open>decodeHero_mem (body r) = Some updatedHero\<close> False
      have "st' = st\<lparr>heroes_mem :=
                        (heroes_mem st)[i := updatedHero\<lparr>ID_mem := Vars_id r\<rparr>]\<rparr>"
        by (auto simp: updateHero_mem_def Let_def)
      moreover have "ID_mem (updatedHero\<lparr>ID_mem := Vars_id r\<rparr>) = Vars_id r"
        by simp
      ultimately show ?thesis
        using Some by blast
    qed
  qed
qed

lemma deleteHero_mem_cases:
  assumes "deleteHero_mem e r st = (resp, st')"
  shows "st' = st \<or>
         (\<exists>i. index_of (Vars_id r) (heroes_mem st) = Some i \<and>
            st' = st\<lparr>heroes_mem := take i (heroes_mem st) @ drop (i + 1) (heroes_mem st)\<rparr>)"
  using assms
  by (cases "index_of (Vars_id r) (heroes_mem st)") (auto simp: deleteHero_mem_def Let_def)

lemma createHero_mem_keeps_ids_below_counter:
  assumes "createHero_mem e r st = (resp, st')" and "ids_below_counter st"
    and "nextID st < 2 ^ 63 - 1"
  shows "ids_below_counter st'"
proof -
  from createHero_mem_cases [OF assms(1)] show ?thesis
  proof
    assume "st' = st"
    with assms(2) show ?thesis by simp
  next
    assume "\<exists>hero. ID_mem hero = Itoa (nextID st) \<and>
            st' = st\<lparr>nextID := increment (nextID st),
                      heroes_mem := heroes_mem st @ [hero]\<rparr>"
    then obtain hero where h: "ID_mem hero = Itoa (nextID st)"
      and st': "st' = st\<lparr>nextID := increment (nextID st),
                          heroes_mem := heroes_mem st @ [hero]\<rparr>"
      by blast
    from assms(2) have lo: "- (2 ^ 63) \<le> nextID st" and hi: "nextID st < 2 ^ 63"
      and old: "\<forall>h \<in> set (heroes_mem st). \<exists>k. Atoi (ID_mem h) = Some k \<and> k < nextID st"
      by (simp_all add: ids_below_counter_iff)
    from assms(3) have inc: "increment (nextID st) = nextID st + 1"
      by (simp add: increment_def)
    have new: "Atoi (ID_mem hero) = Some (nextID st)"
      using h Atoi_Itoa [OF lo hi] by simp
    have "\<exists>k. Atoi (ID_mem x) = Some k \<and> k < nextID st + 1"
      if "x \<in> set (heroes_mem st @ [hero])" for x
    proof (cases "x = hero")
      case True
      with new show ?thesis by simp
    next
      case False
      with that have "x \<in> set (heroes_mem st)" by simp
      with old obtain k where "Atoi (ID_mem x) = Some k" "k < nextID st"
        by blast
      then show ?thesis by simp
    qed
    then have "\<forall>x \<in> set (heroes_mem st'). \<exists>k. Atoi (ID_mem x) = Some k \<and> k < nextID st'"
      by (simp add: st' inc)
    moreover have "- (2 ^ 63) \<le> nextID st' \<and> nextID st' < 2 ^ 63"
      using lo assms(3) by (simp add: st' inc)
    ultimately show ?thesis
      by (simp add: ids_below_counter_iff)
  qed
qed

lemma createHero_mem_keeps_distinct:
  assumes "createHero_mem e r st = (resp, st')" and "ids_below_counter st"
    and "distinct (map ID_mem (heroes_mem st))"
  shows "distinct (map ID_mem (heroes_mem st'))"
proof -
  from createHero_mem_cases [OF assms(1)] show ?thesis
  proof
    assume "st' = st"
    with assms(3) show ?thesis by simp
  next
    assume "\<exists>hero. ID_mem hero = Itoa (nextID st) \<and>
            st' = st\<lparr>nextID := increment (nextID st),
                      heroes_mem := heroes_mem st @ [hero]\<rparr>"
    then obtain hero where h: "ID_mem hero = Itoa (nextID st)"
      and st': "st' = st\<lparr>nextID := increment (nextID st),
                          heroes_mem := heroes_mem st @ [hero]\<rparr>"
      by blast
    from next_id_unused [OF assms(2)] h assms(3) show ?thesis
      unfolding st' by simp
  qed
qed

lemma index_of_update_ids:
  assumes "index_of hid hs = Some i" and "ID_mem hero = hid"
  shows "map ID_mem (hs[i := hero]) = map ID_mem hs"
proof -
  from index_of_Some [OF assms(1)] have lt: "i < length hs" and at: "ID_mem (hs ! i) = hid"
    by blast+
  have "map ID_mem (hs[i := hero]) = (map ID_mem hs)[i := ID_mem (hs ! i)]"
    using assms(2) at by (simp add: map_update)
  also have "\<dots> = map ID_mem hs"
    using lt by (metis length_map list_update_id nth_map)
  finally show ?thesis .
qed

lemma ids_below_counter_same_ids:
  assumes "ids_below_counter st" and "map ID_mem hs = map ID_mem (heroes_mem st)"
  shows "ids_below_counter (st\<lparr>heroes_mem := hs\<rparr>)"
proof -
  have ids: "ID_mem ` set hs = ID_mem ` set (heroes_mem st)"
    using assms(2) by (metis set_map)
  from assms(1) have lo: "- (2 ^ 63) \<le> nextID st" and hi: "nextID st < 2 ^ 63"
    and old: "\<forall>h \<in> set (heroes_mem st). \<exists>k. Atoi (ID_mem h) = Some k \<and> k < nextID st"
    by (simp_all add: ids_below_counter_iff)
  have "\<exists>k. Atoi (ID_mem h) = Some k \<and> k < nextID st" if "h \<in> set hs" for h
  proof -
    from that ids obtain h' where "h' \<in> set (heroes_mem st)" and "ID_mem h = ID_mem h'"
      by (metis image_iff)
    with old show ?thesis
      by simp
  qed
  with lo hi show ?thesis
    by (simp add: ids_below_counter_iff)
qed

lemma updateHero_mem_keeps_invariants:
  assumes "updateHero_mem e r st = (resp, st')"
  shows "(ids_below_counter st \<longrightarrow> ids_below_counter st') \<and>
         (distinct (map ID_mem (heroes_mem st)) \<longrightarrow> distinct (map ID_mem (heroes_mem st')))"
proof -
  from updateHero_mem_cases [OF assms] show ?thesis
  proof
    assume "st' = st"
    then show ?thesis by simp
  next
    assume "\<exists>i hero. index_of (Vars_id r) (heroes_mem st) = Some i \<and>
            ID_mem hero = Vars_id r \<and>
            st' = st\<lparr>heroes_mem := (heroes_mem st)[i := hero]\<rparr>"
    then obtain i hero where i: "index_of (Vars_id r) (heroes_mem st) = Some i"
      and h: "ID_mem hero = Vars_id r"
      and st': "st' = st\<lparr>heroes_mem := (heroes_mem st)[i := hero]\<rparr>"
      by blast
    note ids = index_of_update_ids [OF i h]
    from ids_below_counter_same_ids [OF _ ids] ids show ?thesis
      unfolding st' by simp
  qed
qed

lemma deleteHero_mem_keeps_invariants:
  assumes "deleteHero_mem e r st = (resp, st')"
  shows "(ids_below_counter st \<longrightarrow> ids_below_counter st') \<and>
         (distinct (map ID_mem (heroes_mem st)) \<longrightarrow> distinct (map ID_mem (heroes_mem st')))"
proof -
  from deleteHero_mem_cases [OF assms] show ?thesis
  proof
    assume "st' = st"
    then show ?thesis by simp
  next
    assume "\<exists>i. index_of (Vars_id r) (heroes_mem st) = Some i \<and>
            st' = st\<lparr>heroes_mem := take i (heroes_mem st) @ drop (i + 1) (heroes_mem st)\<rparr>"
    then obtain i where i: "index_of (Vars_id r) (heroes_mem st) = Some i"
      and st': "st' = st\<lparr>heroes_mem := take i (heroes_mem st) @ drop (i + 1) (heroes_mem st)\<rparr>"
      by blast
    from index_of_Some [OF i] have lt: "i < length (heroes_mem st)"
      by blast
    have split: "heroes_mem st =
                   take i (heroes_mem st) @ heroes_mem st ! i # drop (Suc i) (heroes_mem st)"
      using lt by (rule id_take_nth_drop)
    have sub: "set (heroes_mem st') \<subseteq> set (heroes_mem st)"
      unfolding st' by (auto dest: in_set_takeD in_set_dropD)
    have below: "ids_below_counter st'" if inv: "ids_below_counter st"
    proof -
      from inv have lo: "- (2 ^ 63) \<le> nextID st" and hi: "nextID st < 2 ^ 63"
        and old: "\<forall>h \<in> set (heroes_mem st). \<exists>k. Atoi (ID_mem h) = Some k \<and> k < nextID st"
        by (simp_all add: ids_below_counter_iff)
      have n: "nextID st' = nextID st"
        by (simp add: st')
      from old sub
      have "\<forall>h \<in> set (heroes_mem st'). \<exists>k. Atoi (ID_mem h) = Some k \<and> k < nextID st"
        by blast
      with lo hi n show ?thesis
        by (simp add: ids_below_counter_iff)
    qed
    have dist: "distinct (map ID_mem (heroes_mem st'))"
      if d: "distinct (map ID_mem (heroes_mem st))"
    proof -
      have "distinct (map ID_mem
              (take i (heroes_mem st) @ heroes_mem st ! i # drop (Suc i) (heroes_mem st)))"
        using d split by simp
      then show ?thesis
        by (simp add: st')
    qed
    from below dist show ?thesis
      by blast
  qed
qed

section \<open>The invariant of the table\<close>

lemma ids_from_sequence_empty: "ids_from_sequence \<lparr>heroes = [], heroes_id_seq = 0\<rparr>"
  by (simp add: ids_from_sequence_def)

lemma ids_from_sequence_iff:
  "ids_from_sequence d \<longleftrightarrow> (\<forall>h \<in> set (heroes d). ID h \<le> heroes_id_seq d)"
  by (simp add: ids_from_sequence_def list_all_iff)

lemma insert_hero_keeps_invariants:
  assumes "insert_hero e name role difficulty d = (res, d')"
  shows "(ids_from_sequence d \<longrightarrow> ids_from_sequence d') \<and>
         (distinct (map ID (heroes d)) \<longrightarrow> distinct (map ID (heroes d')))"
proof (cases "query_err e")
  case True
  with assms show ?thesis
    by (simp add: insert_hero_def)
next
  case False
  show ?thesis
  proof (cases "heroes_id_seq d + 1 \<in> ID ` set (heroes d)")
    case True
    with assms False have d': "d' = d\<lparr>heroes_id_seq := heroes_id_seq d + 1\<rparr>"
      by (simp add: insert_hero_def Let_def)
    show ?thesis
      unfolding d' by (fastforce simp: ids_from_sequence_iff)
  next
    case fresh: False
    with assms False
    have d': "d' = d\<lparr>heroes_id_seq := heroes_id_seq d + 1,
                      heroes := heroes d @
                        [\<lparr>ID = heroes_id_seq d + 1, Name = name, Role = role,
                          Difficulty = difficulty, CreatedAt = Now e, UpdatedAt = Now e\<rparr>]\<rparr>"
      by (simp add: insert_hero_def Let_def)
    have "ids_from_sequence d'" if "ids_from_sequence d"
      using that unfolding d' by (fastforce simp: ids_from_sequence_iff)
    moreover have "distinct (map ID (heroes d'))" if "distinct (map ID (heroes d))"
      using that fresh unfolding d' by simp
    ultimately show ?thesis
      by blast
  qed
qed

lemma createHero_keeps_invariants:
  assumes "createHero e r d = (resp, d')"
  shows "(ids_from_sequence d \<longrightarrow> ids_from_sequence d') \<and>
         (distinct (map ID (heroes d)) \<longrightarrow> distinct (map ID (heroes d')))"
proof (cases "decodeHeroCreateRequest (body r)")
  case None
  with assms show ?thesis
    by (simp add: createHero_def)
next
  case (Some req)
  show ?thesis
  proof (cases "create_Name req = [] \<or> create_Role req = [] \<or> create_Difficulty req = []")
    case True
    with assms Some show ?thesis
      by (auto simp: createHero_def)
  next
    case False
    obtain res d2
      where i: "insert_hero e (create_Name req) (create_Role req) (create_Difficulty req) d =
                  (res, d2)"
      by (cases "insert_hero e (create_Name req) (create_Role req) (create_Difficulty req) d")
    with assms Some False have "d' = d2"
      by (cases res) (auto simp: createHero_def)
    with insert_hero_keeps_invariants [OF i] show ?thesis
      by simp
  qed
qed

lemma update_hero_keeps_invariants:
  assumes "update_hero e name role difficulty hid d = (res, d')"
  shows "(ids_from_sequence d \<longrightarrow> ids_from_sequence d') \<and>
         (distinct (map ID (heroes d)) \<longrightarrow> distinct (map ID (heroes d')))"
proof (cases "query_err e")
  case True
  with assms show ?thesis
    by (simp add: update_hero_def)
next
  case False
  define set_row :: "Hero \<Rightarrow> Hero"
    where "set_row = (\<lambda>h. if ID h = hid
                           then h\<lparr>Name := name, Role := role, Difficulty := difficulty,
                                  UpdatedAt := Now e\<rparr>
                           else h)"
  have same_id: "ID (set_row h) = ID h" for h
    by (simp add: set_row_def)
  from assms False have d': "d' = d\<lparr>heroes := map set_row (heroes d)\<rparr>"
    by (cases "find (\<lambda>h. ID h = hid) (map set_row (heroes d))")
       (simp_all add: update_hero_def Let_def set_row_def)
  have ids: "map ID (heroes d') = map ID (heroes d)"
    unfolding d' using same_id by simp
  have "ids_from_sequence d'" if "ids_from_sequence d"
    using that unfolding d' by (simp add: ids_from_sequence_iff same_id)
  with ids show ?thesis
    by simp
qed

lemma updateHero_keeps_invariants:
  assumes "updateHero e r d = (resp, d')"
  shows "(ids_from_sequence d \<longrightarrow> ids_from_sequence d') \<and>
         (distinct (map ID (heroes d)) \<longrightarrow> distinct (map ID (heroes d')))"
proof (cases "Atoi (Vars_id r)")
  case None
  with assms show ?thesis
    by (simp add: updateHero_def)
next
  case (Some hid)
  show ?thesis
  proof (cases "decodeHeroUpdateRequest (body r)")
    case None
    with assms Some show ?thesis
      by (simp add: updateHero_def)
  next
    case req: (Some req)
    show ?thesis
    proof (cases "update_Name req = [] \<or> update_Role req = [] \<or> update_Difficulty req = []")
      case True
      with assms Some req show ?thesis
        by (auto simp: updateHero_def)
    next
      case False
      obtain res d2
        where u: "update_hero e (update_Name req) (update_Role req) (update_Difficulty req)
                    hid d = (res, d2)"
        by (cases "update_hero e (update_Name req) (update_Role req) (update_Difficulty req)
                     hid d")
      with assms Some req False have "d' = d2"
        by (cases res) (auto simp: updateHero_def split: sql_error.splits)
      with update_hero_keeps_invariants [OF u] show ?thesis
        by simp
    qed
  qed
qed

lemma deleteHero_keeps_invariants:
  assumes "deleteHero e r d = (resp, d')"
  shows "(ids_from_sequence d \<longrightarrow> ids_from_sequence d') \<and>
         (distinct (map ID (heroes d)) \<longrightarrow> distinct (map ID (heroes d')))"
proof (cases "Atoi (Vars_id r)")
  case None
  with assms show ?thesis
    by (simp add: deleteHero_def)
next
  case (Some hid)
  from assms Some
  have "d' = d \<or> d' = d\<lparr>heroes := filter (\<lambda>h. ID h \<noteq> hid) (heroes d)\<rparr>"
    by (auto simp: deleteHero_def delete_hero_def split: if_splits)
  then show ?thesis
  proof
    assume "d' = d"
    then show ?thesis by simp
  next
    assume d': "d' = d\<lparr>heroes := filter (\<lambda>h. ID h \<noteq> hid) (heroes d)\<rparr>"
    show ?thesis
      unfolding d' by (simp add: ids_from_sequence_iff distinct_map_filter)
  qed
qed

end
